theory Spec2Isabelle
  imports Complex_Main
begin

section \<open>Data model of \<open>backend/api.py\<close>\<close>

text \<open>
  A Python \<open>str\<close> is a sequence of Unicode code points; the tokens handled here carry
  code points beyond one byte (\<open>U+0120\<close>, \<open>U+010A\<close>, \<open>U+201C\<close>), so a string is a
  list of code points. Token ids are non-negative Python ints, and so are the counts
  \<open>topk\<close>, \<open>max_context\<close> and \<open>batch_size\<close>: all are natural numbers.
  Probabilities and scores are the floats of torch and numpy, idealised as reals.
\<close>

type_synonym ustring = "nat list"

datatype error =
    IndexError
  | KeyError
  | RuntimeError
  | ValueError
  | ModelError

text \<open>The payload dict built at the end of every \<open>check_probabilities\<close>.\<close>

record payload =
  bpe_strings :: "ustring list"
  real_topk :: "(nat \<times> real) list"
  pred_topk :: "(ustring \<times> real) list list"

section \<open>Token postprocessing\<close>

text \<open>\<open>token.startswith(p)\<close>.\<close>

definition startswith :: "ustring \<Rightarrow> ustring \<Rightarrow> bool" where
  "startswith token p = (take (length p) token = p)"

text \<open>
  \<open>LM.postprocess\<close> of the class registered as \<open>aragpt2-base\<close> (lines 166-189).
  Code points: \<open>288 = U+0120\<close>, \<open>226 = U+00E2\<close>, \<open>266 = U+010A\<close>, \<open>318 = U+013E\<close>,
  \<open>319 = U+013F\<close>, \<open>315 = U+013B\<close>, \<open>32\<close> a space, \<open>45\<close> a hyphen,
  \<open>8220 = U+201C\<close>, \<open>8221 = U+201D\<close>, \<open>39\<close> an apostrophe.
\<close>

definition LM_postprocess :: "ustring \<Rightarrow> ustring" where
  "LM_postprocess token0 =
     (let (with_space, with_break, token1) =
            (if startswith token0 [288] then (True, False, drop 1 token0)
             else if startswith token0 [226] then (False, False, [32])
             else if startswith token0 [266] then (False, True, [32])
             else (False, False, token0));
          token2 = (if startswith token1 [226] then [45] else token1);
          token3 = (if startswith token2 [318] then [8220] else token2);
          token4 = (if startswith token3 [319] then [8221] else token3);
          token5 = (if startswith token4 [315] then [39] else token4);
          token6 = (if with_space then 288 # token5 else token5);
          token7 = (if with_break then 266 # token6 else token6)
      in token7)"

text \<open>\<open>LM.postprocess\<close> of the class registered as \<open>aragpt2-mega\<close> (lines 286-309).\<close>

definition LM_mega_postprocess :: "ustring \<Rightarrow> ustring" where
  "LM_mega_postprocess token0 =
     (let (with_space, with_break, token1) =
            (if startswith token0 [288] then (True, False, drop 1 token0)
             else if startswith token0 [226] then (False, False, [32])
             else if startswith token0 [266] then (False, True, [32])
             else (False, False, token0));
          token2 = (if startswith token1 [226] then [45] else token1);
          token3 = (if startswith token2 [318] then [8220] else token2);
          token4 = (if startswith token3 [319] then [8221] else token3);
          token5 = (if startswith token4 [315] then [39] else token4);
          token6 = (if with_space then 288 # token5 else token5);
          token7 = (if with_break then 266 # token6 else token6)
      in token7)"

text \<open>
  \<open>BERTLM.postprocess\<close> (lines 428-442). \<open>[91, 83, 69, 80, 93]\<close> is \<open>[SEP]\<close> and
  \<open>[35, 35]\<close> is the continuation marker \<open>##\<close>.
\<close>

definition BERTLM_postprocess :: "ustring \<Rightarrow> ustring" where
  "BERTLM_postprocess token0 =
     (let with_break = (token0 = [91, 83, 69, 80, 93]);
          (with_space, token1) =
            (if startswith token0 [35, 35] then (False, drop 2 token0) else (True, token0));
          token2 = (if with_space then 288 # token1 else token1);
          token3 = (if with_break then 266 # token2 else token2)
      in token3)"

section \<open>Exceptions and the library calls of the pipelines\<close>

text \<open>
  A list comprehension or loop whose body may raise: the first exception ends it.
\<close>

fun mapM :: "('a \<Rightarrow> error + 'b) \<Rightarrow> 'a list \<Rightarrow> error + 'b list" where
  "mapM f [] = Inr []"
| "mapM f (x # xs) =
     (case f x of
        Inl e \<Rightarrow> Inl e
      | Inr v \<Rightarrow> (case mapM f xs of Inl e \<Rightarrow> Inl e | Inr vs \<Rightarrow> Inr (v # vs)))"

text \<open>Indexing with a non-negative index: out of range raises \<open>IndexError\<close>.\<close>

definition nth_err :: "'a list \<Rightarrow> nat \<Rightarrow> error + 'a" where
  "nth_err xs i = (if i < length xs then Inr (xs ! i) else Inl IndexError)"

text \<open>
  \<open>np.argsort\<close> on one row. The source calls it with numpy's default kind, which
  fixes no order among equal entries, so the function is a collaborator of the
  pipelines like the model and the tokenizer: \<open>np_argsort\<close>. What numpy promises of it
  is \<open>argsort_ok\<close>: the result is a permutation of the row's indices along which the
  row ascends.
\<close>

record numpy =
  np_argsort :: "real list \<Rightarrow> nat list"

definition argsort_ok :: "(real list \<Rightarrow> nat list) \<Rightarrow> bool" where
  "argsort_ok f =
     (\<forall>xs. length (f xs) = length xs \<and> distinct (f xs) \<and> set (f xs) = {0..<length xs} \<and>
           sorted (map (\<lambda>j. xs ! j) (f xs)))"

text \<open>\<open>np.argsort(-d)\<close> on one row \<open>d\<close>.\<close>

definition argsort_neg :: "'a numpy_scheme \<Rightarrow> real list \<Rightarrow> nat list" where
  "argsort_neg self d = np_argsort self (map uminus d)"

text \<open>
  \<open>int(np.where(row == t)[0][0])\<close>: the first index at which \<open>row\<close> holds \<open>t\<close>;
  \<open>IndexError\<close> when \<open>t\<close> does not occur.
\<close>

fun where_first :: "nat list \<Rightarrow> nat \<Rightarrow> error + nat" where
  "where_first [] t = Inl IndexError"
| "where_first (x # xs) t =
     (if x = t then Inr 0
      else (case where_first xs t of Inl e \<Rightarrow> Inl e | Inr k \<Rightarrow> Inr (Suc k)))"

text \<open>
  Python's \<open>round(x, 5)\<close>: the nearest multiple of \<open>10^-5\<close>, a tie going to the even
  multiple.
\<close>

definition round_half_even :: "real \<Rightarrow> int" where
  "round_half_even x =
     (let f = \<lfloor>x\<rfloor>; r = x - of_int f
      in if r < 1 / 2 then f
         else if 1 / 2 < r then f + 1
         else if even f then f else f + 1)"

definition round5 :: "real \<Rightarrow> real" where
  "round5 x = of_int (round_half_even (x * 100000)) / 100000"

text \<open>
  \<open>torch.cat(xs, dim=0)\<close> of a list of one-row tensors: the rows in order; an empty
  list is refused with a \<open>RuntimeError\<close>.
\<close>

definition torch_cat :: "'a list \<Rightarrow> error + 'a list" where
  "torch_cat xs = (if xs = [] then Inl RuntimeError else Inr xs)"

text \<open>
  \<open>torch.nn.ConstantPad1d((l, r), v)\<close> on one row: \<open>l\<close> copies of \<open>v\<close> on the left and
  \<open>r\<close> on the right; a negative amount crops that many entries instead.
\<close>

definition ConstantPad1d :: "int \<times> int \<Rightarrow> nat \<Rightarrow> nat list \<Rightarrow> nat list" where
  "ConstantPad1d lr v xs =
     (let (l, r) = lr;
          xs1 = (if 0 \<le> l then replicate (nat l) v @ xs else drop (nat (- l)) xs);
          xs2 = (if 0 \<le> r then xs1 @ replicate (nat r) v
                 else take (length xs1 - nat (- r)) xs1)
      in xs2)"

text \<open>
  \<open>range(0, n, step)\<close> for a positive \<open>step\<close>: the \<open>(n + step - 1) // step\<close>
  values \<open>0, step, 2 * step, ...\<close> below \<open>n\<close>.
\<close>

definition range_step :: "nat \<Rightarrow> nat \<Rightarrow> nat list" where
  "range_step n step = map (\<lambda>k. k * step) [0..<(n + step - 1) div step]"

section \<open>Masked pipeline: context windows and batches\<close>

text \<open>
  The body of the inner loop of \<open>BERTLM.check_probabilities\<close> (lines 358-385) for one
  \<open>mask_index\<close>: the window, and the target id \<open>y[:, mask_index + 1]\<close>. The
  assignment \<open>tokens_tensor[0, mask_index + 1] = self.mask_tok\<close> raises
  \<open>IndexError\<close> out of range. \<open>y\<close> is the list \<open>y_toks\<close>.
\<close>

definition window :: "nat list \<Rightarrow> nat \<Rightarrow> nat \<Rightarrow> nat \<Rightarrow> nat \<Rightarrow> error + nat list" where
  "window y mask_tok pad max_context mask_index =
     (if length y \<le> mask_index + 1 then Inl IndexError
      else
        let tokens_tensor = y[mask_index + 1 := mask_tok];
            min_index = max 0 (int mask_index - int max_context);
            max_index = min (int (length tokens_tensor) - 1)
                            (int mask_index + int max_context + 1);
            sliced = take (nat max_index - nat min_index) (drop (nat min_index) tokens_tensor);
            needed_padding = int max_context * 2 + 1 - int (length sliced)
        in if min_index = 0 \<and> max_index = int (length y) - 1 then
             (let left_needed = int max_context - int mask_index;
                  right_needed = needed_padding - left_needed
              in Inr (ConstantPad1d (left_needed, right_needed) pad sliced))
           else if min_index = 0 then Inr (ConstantPad1d (needed_padding, 0) pad sliced)
           else if max_index = int (length y) - 1 then
             Inr (ConstantPad1d (0, needed_padding) pad sliced)
           else Inr sliced)"

definition batch_item ::
  "nat list \<Rightarrow> nat \<Rightarrow> nat \<Rightarrow> nat \<Rightarrow> nat \<Rightarrow> error + (nat list \<times> nat)" where
  "batch_item y mask_tok pad max_context mask_index =
     (case window y mask_tok pad max_context mask_index of
        Inl e \<Rightarrow> Inl e
      | Inr tokens_tensor \<Rightarrow> Inr (tokens_tensor, y ! (mask_index + 1)))"

text \<open>
  The values of \<open>mask_index\<close> of the group that starts at \<open>min_ix\<close>:
  \<open>min_ix + running_ix\<close> for \<open>running_ix\<close> in \<open>range(max_ix - min_ix)\<close>, with
  \<open>max_ix = min(min_ix + batch_size, len(y_toks) - 1)\<close>.
\<close>

definition batch_indices :: "nat \<Rightarrow> nat \<Rightarrow> nat \<Rightarrow> nat list" where
  "batch_indices n batch_size min_ix =
     (let max_ix = min (int min_ix + int batch_size) (int n - 1)
      in map (\<lambda>running_ix. min_ix + running_ix) [0..<nat (max_ix - int min_ix)])"

text \<open>One round of the outer loop (lines 353-390): a group and its targets.\<close>

definition build_batch ::
  "nat list \<Rightarrow> nat \<Rightarrow> nat \<Rightarrow> nat \<Rightarrow> nat \<Rightarrow> nat \<Rightarrow> error + (nat list list \<times> nat list)" where
  "build_batch y mask_tok pad max_context batch_size min_ix =
     (case mapM (batch_item y mask_tok pad max_context)
                (batch_indices (length y) batch_size min_ix) of
        Inl e \<Rightarrow> Inl e
      | Inr items \<Rightarrow>
          (case torch_cat (map fst items) of
             Inl e \<Rightarrow> Inl e
           | Inr cur_input_batch \<Rightarrow>
               (case torch_cat (map snd items) of
                  Inl e \<Rightarrow> Inl e
                | Inr cur_target_batch \<Rightarrow> Inr (cur_input_batch, cur_target_batch))))"

text \<open>
  The outer loop (lines 350-390). \<open>range\<close> raises \<open>ValueError\<close> on a zero step.
\<close>

definition build_batches ::
  "nat list \<Rightarrow> nat \<Rightarrow> nat \<Rightarrow> nat \<Rightarrow> nat \<Rightarrow> error + (nat list list \<times> nat list) list" where
  "build_batches y mask_tok pad max_context batch_size =
     (if batch_size = 0 then Inl ValueError
      else mapM (build_batch y mask_tok pad max_context batch_size)
                (range_step (length y) batch_size))"

section \<open>Ranking\<close>

text \<open>
  \<open>torch.softmax(row, dim=-1)\<close> on one row of scores: each entry's exponential over
  the sum of the exponentials of the row.
\<close>

definition softmax :: "real list \<Rightarrow> real list" where
  "softmax xs = map (\<lambda>x. exp x / sum_list (map exp xs)) xs"

text \<open>
  \<open>yhat[np.arange(0, rows, 1), tgt]\<close> where \<open>rows = yhat.shape[0]\<close>: the two index
  arrays are broadcast against each other (equal lengths, or one of them of length
  one), and entry \<open>k\<close> of the result is \<open>yhat[i_k][t_k]\<close>; lengths that do not
  broadcast, and an index out of range, raise \<open>IndexError\<close>.
\<close>

definition index_rows :: "real list list \<Rightarrow> nat list \<Rightarrow> error + real list" where
  "index_rows yhat tgt =
     (let rows = length yhat; k = length tgt
      in if rows = k then
           mapM (\<lambda>i. nth_err (yhat ! i) (tgt ! i)) [0..<rows]
         else if k = 1 then
           mapM (\<lambda>i. nth_err (yhat ! i) (tgt ! 0)) [0..<rows]
         else if rows = 1 then
           mapM (\<lambda>t. nth_err (yhat ! 0) t) tgt
         else Inl IndexError)"

section \<open>Causal pipeline\<close>

text \<open>
  What \<open>LM.__init__\<close> loads: the preprocessor, the tokenizer's \<open>encode\<close> and its
  \<open>decoder\<close> dict, and the model; with them, numpy's \<open>argsort\<close>.
  \<open>lm_model self context\<close> stands for the first component of
  \<open>self.model(context)\<close> at batch index 0: one score vector per position of
  \<open>context\<close>, or the exception of the forward pass.
\<close>

record lm_env = numpy +
  lm_preprocess :: "ustring \<Rightarrow> ustring"
  enc_encode :: "ustring \<Rightarrow> nat list"
  enc_decoder :: "nat \<Rightarrow> ustring option"
  lm_model :: "nat list \<Rightarrow> error + real list list"

text \<open>\<open>self.enc.decoder[s]\<close>: a missing key raises \<open>KeyError\<close>.\<close>

definition decoder_lookup :: "lm_env \<Rightarrow> nat \<Rightarrow> error + ustring" where
  "decoder_lookup self s = (case enc_decoder self s of None \<Rightarrow> Inl KeyError | Some t \<Rightarrow> Inr t)"

text \<open>\<open>LM.check_probabilities\<close> of the class registered as \<open>aragpt2-base\<close> (lines 85-134).\<close>

definition LM_check_probabilities :: "lm_env \<Rightarrow> ustring \<Rightarrow> nat \<Rightarrow> error + payload" where
  "LM_check_probabilities self in_text0 topk =
     (let in_text = lm_preprocess self in_text0;
          context = enc_encode self in_text
      in case lm_model self context of
           Inl e \<Rightarrow> Inl e
         | Inr logits \<Rightarrow>
      let yhat = map softmax (butlast logits);
          y = drop 1 context;
          sorted_preds = map (argsort_neg self) yhat
      in case mapM (\<lambda>i. case nth_err sorted_preds i of
                           Inl e \<Rightarrow> Inl e
                         | Inr row \<Rightarrow> where_first row (y ! i)) [0..<length y] of
           Inl e \<Rightarrow> Inl e
         | Inr real_topk_pos \<Rightarrow>
      case mapM (\<lambda>i. case nth_err yhat i of
                        Inl e \<Rightarrow> Inl e
                      | Inr row \<Rightarrow> nth_err row (y ! i)) [0..<length y] of
           Inl e \<Rightarrow> Inl e
         | Inr real_topk_probs0 \<Rightarrow>
      let real_topk_probs = map round5 real_topk_probs0;
          real_topk = zip real_topk_pos real_topk_probs
      in case mapM (decoder_lookup self) context of
           Inl e \<Rightarrow> Inl e
         | Inr bpe_strings0 \<Rightarrow>
      let bpe_strings = map LM_postprocess bpe_strings0
      in case mapM (\<lambda>i. case mapM (decoder_lookup self) (take topk (sorted_preds ! i)) of
                           Inl e \<Rightarrow> Inl e
                         | Inr toks \<Rightarrow>
                             Inr (zip toks
                                   (map round5
                                     (map (\<lambda>p. yhat ! i ! p) (take topk (sorted_preds ! i))))))
                     [0..<length y] of
           Inl e \<Rightarrow> Inl e
         | Inr pred_topk0 \<Rightarrow>
      let pred_topk = map (map (\<lambda>t. (LM_postprocess (fst t), snd t))) pred_topk0
      in Inr \<lparr>bpe_strings = bpe_strings, real_topk = real_topk, pred_topk = pred_topk\<rparr>)"

text \<open>\<open>LM.check_probabilities\<close> of the class registered as \<open>aragpt2-mega\<close> (lines 205-254).\<close>

definition LM_mega_check_probabilities :: "lm_env \<Rightarrow> ustring \<Rightarrow> nat \<Rightarrow> error + payload" where
  "LM_mega_check_probabilities self in_text0 topk =
     (let in_text = lm_preprocess self in_text0;
          context = enc_encode self in_text
      in case lm_model self context of
           Inl e \<Rightarrow> Inl e
         | Inr logits \<Rightarrow>
      let yhat = map softmax (butlast logits);
          y = drop 1 context;
          sorted_preds = map (argsort_neg self) yhat
      in case mapM (\<lambda>i. case nth_err sorted_preds i of
                           Inl e \<Rightarrow> Inl e
                         | Inr row \<Rightarrow> where_first row (y ! i)) [0..<length y] of
           Inl e \<Rightarrow> Inl e
         | Inr real_topk_pos \<Rightarrow>
      case mapM (\<lambda>i. case nth_err yhat i of
                        Inl e \<Rightarrow> Inl e
                      | Inr row \<Rightarrow> nth_err row (y ! i)) [0..<length y] of
           Inl e \<Rightarrow> Inl e
         | Inr real_topk_probs0 \<Rightarrow>
      let real_topk_probs = map round5 real_topk_probs0;
          real_topk = zip real_topk_pos real_topk_probs
      in case mapM (decoder_lookup self) context of
           Inl e \<Rightarrow> Inl e
         | Inr bpe_strings0 \<Rightarrow>
      let bpe_strings = map LM_mega_postprocess bpe_strings0
      in case mapM (\<lambda>i. case mapM (decoder_lookup self) (take topk (sorted_preds ! i)) of
                           Inl e \<Rightarrow> Inl e
                         | Inr toks \<Rightarrow>
                             Inr (zip toks
                                   (map round5
                                     (map (\<lambda>p. yhat ! i ! p) (take topk (sorted_preds ! i))))))
                     [0..<length y] of
           Inl e \<Rightarrow> Inl e
         | Inr pred_topk0 \<Rightarrow>
      let pred_topk = map (map (\<lambda>t. (LM_mega_postprocess (fst t), snd t))) pred_topk0
      in Inr \<lparr>bpe_strings = bpe_strings, real_topk = real_topk, pred_topk = pred_topk\<rparr>)"

section \<open>Masked pipeline\<close>

text \<open>
  What \<open>BERTLM.__init__\<close> loads. \<open>token_to_id\<close> and \<open>id_to_token\<close> are the tokenizer's
  \<open>convert_tokens_to_ids\<close> and \<open>convert_ids_to_tokens\<close> on one element (both map a
  list elementwise and fall back to the unknown token instead of raising).
  \<open>bert_model self src\<close> stands for \<open>self.model(src, torch.zeros_like(src))\<close>: for
  each row of \<open>src\<close>, one score vector per position, or the exception of the forward
  pass. numpy's \<open>argsort\<close> comes with them.
\<close>

record bert_env = numpy +
  bert_preprocess :: "ustring \<Rightarrow> ustring"
  tokenizer_tokenize :: "ustring \<Rightarrow> ustring list"
  token_to_id :: "ustring \<Rightarrow> nat"
  id_to_token :: "nat \<Rightarrow> ustring"
  bert_model :: "nat list list \<Rightarrow> error + real list list list"
  self_mask_tok :: nat
  self_pad :: nat

text \<open>
  One round of the second loop (lines 396-419): the rank entries and the top-k lists
  of one group. The scores are read at offset \<open>max_context + 1\<close> of every row.
\<close>

definition rank_batch ::
  "bert_env \<Rightarrow> nat \<Rightarrow> nat \<Rightarrow> nat list list \<times> nat list \<Rightarrow>
     error + ((nat \<times> real) list \<times> (ustring \<times> real) list list)" where
  "rank_batch self topk max_context batch =
     (let (src, tgt) = batch
      in case bert_model self src of
           Inl e \<Rightarrow> Inl e
         | Inr out \<Rightarrow>
      case mapM (\<lambda>row. nth_err row (max_context + 1)) out of
           Inl e \<Rightarrow> Inl e
         | Inr logits \<Rightarrow>
      let yhat = map softmax logits;
          sorted_preds = map (argsort_neg self) yhat
      in case mapM (\<lambda>i. case nth_err tgt i of
                           Inl e \<Rightarrow> Inl e
                         | Inr t \<Rightarrow> where_first (sorted_preds ! i) t) [0..<length yhat] of
           Inl e \<Rightarrow> Inl e
         | Inr real_topk_pos \<Rightarrow>
      case index_rows yhat tgt of
           Inl e \<Rightarrow> Inl e
         | Inr real_topk_probs \<Rightarrow>
      Inr (zip real_topk_pos real_topk_probs,
           map (\<lambda>i. zip (map (id_to_token self) (take topk (sorted_preds ! i)))
                         (map (\<lambda>p. yhat ! i ! p) (take topk (sorted_preds ! i))))
               [0..<length yhat]))"

text \<open>
  \<open>BERTLM.check_probabilities\<close> (lines 330-426). \<open>[91, 67, 76, 83, 93, 32]\<close> is
  \<open>"[CLS] "\<close> and \<open>[32, 91, 83, 69, 80, 93]\<close> is \<open>" [SEP]"\<close>.
\<close>

definition BERTLM_check_probabilities ::
  "bert_env \<Rightarrow> ustring \<Rightarrow> nat \<Rightarrow> nat \<Rightarrow> nat \<Rightarrow> error + payload" where
  "BERTLM_check_probabilities self in_text0 topk max_context batch_size =
     (let in_text1 = bert_preprocess self in_text0;
          in_text = [91, 67, 76, 83, 93, 32] @ in_text1 @ [32, 91, 83, 69, 80, 93];
          tokenized_text = tokenizer_tokenize self in_text;
          y_toks = map (token_to_id self) tokenized_text
      in case build_batches y_toks (self_mask_tok self) (self_pad self) max_context batch_size of
           Inl e \<Rightarrow> Inl e
         | Inr batches \<Rightarrow>
      case mapM (rank_batch self topk max_context) batches of
           Inl e \<Rightarrow> Inl e
         | Inr ranked \<Rightarrow>
      let real_topk = concat (map fst ranked);
          pred_topk0 = concat (map snd ranked);
          bpe_strings = map BERTLM_postprocess tokenized_text;
          pred_topk = map (map (\<lambda>t. (BERTLM_postprocess (fst t), snd t))) pred_topk0
      in Inr \<lparr>bpe_strings = bpe_strings, real_topk = real_topk, pred_topk = pred_topk\<rparr>)"

section \<open>Concrete collaborators for the examples\<close>

text \<open>
  An \<open>argsort\<close> that keeps equal entries in index order; it is one of the functions
  that meet \<open>argsort_ok\<close>. The scores of the two examples below are pairwise
  distinct, so every such function sorts them in the same way.
\<close>

definition stable_argsort :: "real list \<Rightarrow> nat list" where
  "stable_argsort xs = sort_key (\<lambda>j. xs ! j) [0..<length xs]"

text \<open>
  The collaborators of the masked example: the \<open>argsort\<close> above, a tokenizer
  splitting at spaces, a five-entry vocabulary (\<open>[PAD]\<close>, \<open>[CLS]\<close>,
  \<open>[SEP]\<close>, \<open>[MASK]\<close> and the word \<open>w\<close>, with ids 0 to 4), and a forward pass that
  scores every position of every row with \<open>ln 1, ..., ln 5\<close>, so that the softmax
  gives the ids the probabilities \<open>1/15, 2/15, 3/15, 4/15, 5/15\<close>.
\<close>

fun split_spaces :: "ustring \<Rightarrow> ustring \<Rightarrow> ustring list" where
  "split_spaces acc [] = (if acc = [] then [] else [acc])"
| "split_spaces acc (c # cs) =
     (if c = 32 then (if acc = [] then split_spaces [] cs else acc # split_spaces [] cs)
      else split_spaces (acc @ [c]) cs)"

definition example_vocab :: "ustring list" where
  "example_vocab =
     [[91, 80, 65, 68, 93], [91, 67, 76, 83, 93], [91, 83, 69, 80, 93],
      [91, 77, 65, 83, 75, 93], [119]]"

definition example_bert :: bert_env where
  "example_bert =
     \<lparr>np_argsort = stable_argsort,
      bert_preprocess = (\<lambda>t. t),
      tokenizer_tokenize = split_spaces [],
      token_to_id = (\<lambda>t. if t = [91, 80, 65, 68, 93] then 0
                          else if t = [91, 67, 76, 83, 93] then 1
                          else if t = [91, 83, 69, 80, 93] then 2
                          else if t = [91, 77, 65, 83, 75, 93] then 3 else 4),
      id_to_token = (\<lambda>i. example_vocab ! i),
      bert_model = (\<lambda>src. Inr (map (map (\<lambda>t. [ln 1, ln 2, ln 3, ln 4, ln 5])) src)),
      self_mask_tok = 3,
      self_pad = 0\<rparr>"

text \<open>
  A byte-level tokenizer on the letters \<open>a, b, c\<close> (ids 0 to 2) and a forward pass
  that scores every position with \<open>ln 7, ln 2, ln 1\<close>: the probabilities are
  \<open>0.7, 0.2, 0.1\<close>.
\<close>

definition example_lm :: lm_env where
  "example_lm =
     \<lparr>np_argsort = stable_argsort,
      lm_preprocess = (\<lambda>t. t),
      enc_encode = map (\<lambda>c. c - 97),
      enc_decoder = (\<lambda>i. if i < 3 then Some [97 + i] else None),
      lm_model = (\<lambda>context. Inr (map (\<lambda>t. [ln 7, ln 2, ln 1]) context))\<rparr>"


text \<open>The payloads the two pipelines return on the example collaborators.\<close>

definition example_lm_payload :: payload where
  "example_lm_payload =
     \<lparr>bpe_strings = [[97], [98], [99]],
      real_topk = [(1, 1 / 5), (2, 1 / 10)],
      pred_topk = [[([97], 7 / 10), ([98], 1 / 5)], [([97], 7 / 10), ([98], 1 / 5)]]\<rparr>"

definition example_bert_payload :: payload where
  "example_bert_payload =
     \<lparr>bpe_strings = [[288, 91, 67, 76, 83, 93], [288, 119], [266, 288, 91, 83, 69, 80, 93]],
      real_topk = [(0, 1 / 3), (2, 1 / 5)],
      pred_topk = [[([288, 119], 1 / 3), ([288, 91, 77, 65, 83, 75, 93], 4 / 15),
            ([266, 288, 91, 83, 69, 80, 93], 1 / 5), ([288, 91, 67, 76, 83, 93], 2 / 15),
            ([288, 91, 80, 65, 68, 93], 1 / 15)], [([288, 119], 1 / 3), ([288, 91, 77, 65, 83, 75, 93], 4 / 15),
            ([266, 288, 91, 83, 69, 80, 93], 1 / 5), ([288, 91, 67, 76, 83, 93], 2 / 15),
            ([288, 91, 80, 65, 68, 93], 1 / 15)]]\<rparr>"




section \<open>The rank of a ground truth in a distribution\<close>






text \<open>
  The prefixes that \<open>LM.postprocess\<close> treats specially: the six code points tested by
  its \<open>startswith\<close> calls.
\<close>

definition LM_special_prefix :: "ustring \<Rightarrow> bool" where
  "LM_special_prefix token =
     (startswith token [288] \<or> startswith token [226] \<or> startswith token [266]
      \<or> startswith token [318] \<or> startswith token [319] \<or> startswith token [315])"

section \<open>Facts about the library calls\<close>

lemma mapM_Inr_D: "mapM f xs = Inr ys \<Longrightarrow> list_all2 (\<lambda>x y. f x = Inr y) xs ys"
  by (induction xs arbitrary: ys) (auto split: sum.splits)

lemma mapM_Inr_I: "list_all2 (\<lambda>x y. f x = Inr y) xs ys \<Longrightarrow> mapM f xs = Inr ys"
  by (induction rule: list_all2_induct) auto

lemma mapM_total: "(\<And>x. x \<in> set xs \<Longrightarrow> f x = Inr (g x)) \<Longrightarrow> mapM f xs = Inr (map g xs)"
  by (induction xs) auto

text \<open>One failing element, every other one succeeding: the loop raises that failure.\<close>

lemma mapM_Inl:
  "x \<in> set xs \<Longrightarrow> f x = Inl e \<Longrightarrow> (\<And>x'. x' \<in> set xs \<Longrightarrow> x' \<noteq> x \<Longrightarrow> \<exists>v. f x' = Inr v)
     \<Longrightarrow> mapM f xs = Inl e"
proof (induction xs)
  case Nil
  then show ?case by simp
next
  case (Cons a xs)
  show ?case
  proof (cases "a = x")
    case True
    then show ?thesis using Cons.prems(2) by simp
  next
    case False
    then obtain v where v: "f a = Inr v" using Cons.prems(3) [of a] by auto
    have "x \<in> set xs" using Cons.prems(1) False by auto
    then have "mapM f xs = Inl e" using Cons.IH Cons.prems(2,3) by auto
    then show ?thesis using v by simp
  qed
qed

lemma mapM_length: "mapM f xs = Inr ys \<Longrightarrow> length ys = length xs"
  using mapM_Inr_D [of f xs ys] by (simp add: list_all2_lengthD)

lemma mapM_nth: "mapM f xs = Inr ys \<Longrightarrow> i < length xs \<Longrightarrow> f (xs ! i) = Inr (ys ! i)"
  using list_all2_nthD [OF mapM_Inr_D, of f xs ys i] by simp

lemma ConstantPad1d_nonneg:
  "0 \<le> l \<Longrightarrow> 0 \<le> r \<Longrightarrow>
     ConstantPad1d (l, r) v xs = replicate (nat l) v @ xs @ replicate (nat r) v"
  by (simp add: ConstantPad1d_def)

lemma add_upt: "map (\<lambda>r. m + r) [0..<j - m] = [m..<j]"
proof (cases "m \<le> j")
  case True
  have "map (\<lambda>r. r + m) [0..<j - m] = [m..<j - m + m]" by (rule map_add_upt)
  then show ?thesis using True by (simp add: add.commute)
next
  case False
  then show ?thesis by simp
qed

lemma range_step_chunks:
  fixes k n step :: nat
  assumes "0 < step"
  shows "(k < (n + step - 1) div step) = (k * step < n)"
proof -
  have "(Suc k \<le> (n + step - 1) div step) = (Suc k * step \<le> n + step - 1)"
    using assms by (rule less_eq_div_iff_mult_less_eq)
  also have "\<dots> = (k * step + step \<le> n + step - 1)" by (simp add: add.commute)
  also have "\<dots> = (k * step < n)" using assms by arith
  finally show ?thesis by (simp add: Suc_le_eq)
qed

lemma range_step_set:
  assumes "0 < step"
  shows "set (range_step n step) = {i. i < n \<and> i mod step = 0}"
proof (intro set_eqI iffI)
  fix x assume "x \<in> set (range_step n step)"
  then obtain k where "k < (n + step - 1) div step" "x = k * step"
    unfolding range_step_def by auto
  then show "x \<in> {i. i < n \<and> i mod step = 0}"
    using range_step_chunks [OF assms, of k n] by simp
next
  fix x assume "x \<in> {i. i < n \<and> i mod step = 0}"
  then have x: "x < n" "x = (x div step) * step" by auto
  then have "x div step < (n + step - 1) div step"
    using range_step_chunks [OF assms, of "x div step" n] by simp
  then have "(x div step) * step \<in> set (range_step n step)"
    unfolding range_step_def by (auto simp add: image_iff simp del: One_nat_def)
  then show "x \<in> set (range_step n step)" using x(2) by simp
qed

section \<open>Facts about windows and groups\<close>

lemma batch_indices_upt:
  "0 < n \<Longrightarrow> batch_indices n batch_size min_ix = [min_ix..<min (min_ix + batch_size) (n - 1)]"
proof -
  assume n: "0 < n"
  have "nat (min (int min_ix + int batch_size) (int n - 1) - int min_ix)
        = min (min_ix + batch_size) (n - 1) - min_ix"
    using n by arith
  then show ?thesis
    by (simp only: batch_indices_def Let_def add_upt)
qed

text \<open>
  The window as a padded slice: \<open>l\<close> pad ids, the tokens from
  \<open>max(0, mask_index - R)\<close> up to but excluding \<open>min(n - 1, mask_index + R + 1)\<close> with
  position \<open>mask_index + 1\<close> overwritten, and \<open>r\<close> pad ids.
\<close>

lemma window_padded:
  assumes "mask_index + 1 < length y"
  shows "\<exists>l r. window y mask_tok pad R mask_index =
           Inr (replicate l pad @
                take (min (length y - 1) (mask_index + R + 1) - (mask_index - R))
                     (drop (mask_index - R) (y[mask_index + 1 := mask_tok])) @
                replicate r pad)
         \<and> l + (min (length y - 1) (mask_index + R + 1) - (mask_index - R)) + r = 2 * R + 1
         \<and> (mask_index \<le> R \<longrightarrow> l = R - mask_index)
         \<and> (R < mask_index \<longrightarrow> l = 0)"
proof -
  define n where "n = length y"
  define y' where "y' = y[mask_index + 1 := mask_tok]"
  define lo where "lo = max 0 (int mask_index - int R)"
  define hi where "hi = min (int (length y') - 1) (int mask_index + int R + 1)"
  define s where "s = take (nat hi - nat lo) (drop (nat lo) y')"
  define needed where "needed = int R * 2 + 1 - int (length s)"
  have n: "mask_index + 1 < n" "length y' = n" using assms by (simp_all add: n_def y'_def)
  have lo: "nat lo = mask_index - R" "0 \<le> lo" "(lo = 0) = (mask_index \<le> R)"
    unfolding lo_def by arith+
  have hi: "nat hi = min (n - 1) (mask_index + R + 1)"
    "(hi = int n - 1) = (n \<le> mask_index + R + 2)"
    unfolding hi_def using n by arith+
  have s: "s = take (min (n - 1) (mask_index + R + 1) - (mask_index - R))
                    (drop (mask_index - R) y')"
    by (simp only: s_def lo hi)
  have ls: "length s = min (n - 1) (mask_index + R + 1) - (mask_index - R)"
    unfolding s using n by simp
  have w: "window y mask_tok pad R mask_index =
      Inr (if lo = 0 \<and> hi = int n - 1 then
             ConstantPad1d (int R - int mask_index, needed - (int R - int mask_index)) pad s
           else if lo = 0 then ConstantPad1d (needed, 0) pad s
           else if hi = int n - 1 then ConstantPad1d (0, needed) pad s
           else s)"
    using assms
    unfolding window_def Let_def needed_def s_def hi_def lo_def y'_def n_def
    by simp
  consider (both) "mask_index \<le> R" "n \<le> mask_index + R + 2"
    | (left) "mask_index \<le> R" "\<not> n \<le> mask_index + R + 2"
    | (right) "\<not> mask_index \<le> R" "n \<le> mask_index + R + 2"
    | (mid) "\<not> mask_index \<le> R" "\<not> n \<le> mask_index + R + 2"
    by blast
  then show ?thesis
  proof cases
    case both
    have a: "0 \<le> int R - int mask_index" "0 \<le> needed - (int R - int mask_index)"
      "nat (int R - int mask_index) = R - mask_index"
      "R - mask_index + length s + nat (needed - (int R - int mask_index)) = 2 * R + 1"
      unfolding needed_def ls using both n by arith+
    have "window y mask_tok pad R mask_index =
       Inr (replicate (R - mask_index) pad @ s @
            replicate (nat (needed - (int R - int mask_index))) pad)"
      using both a by (simp add: w lo hi ConstantPad1d_nonneg)
    then show ?thesis using a both unfolding s ls y'_def n_def by auto
  next
    case left
    have a: "0 \<le> needed" "nat needed = R - mask_index" "R - mask_index + length s = 2 * R + 1"
      unfolding needed_def ls using left n by arith+
    have "window y mask_tok pad R mask_index =
       Inr (replicate (R - mask_index) pad @ s @ replicate 0 pad)"
      using left a by (simp add: w lo hi ConstantPad1d_nonneg)
    then show ?thesis using a left unfolding s ls y'_def n_def by auto
  next
    case right
    have a: "0 \<le> needed" "length s + nat needed = 2 * R + 1"
      unfolding needed_def ls using right n by arith+
    have "window y mask_tok pad R mask_index =
       Inr (replicate 0 pad @ s @ replicate (nat needed) pad)"
      using right a by (simp add: w lo hi ConstantPad1d_nonneg)
    then show ?thesis using a right unfolding s ls y'_def n_def by auto
  next
    case mid
    have a: "length s = 2 * R + 1"
      unfolding ls using mid n by arith
    have "window y mask_tok pad R mask_index = Inr (replicate 0 pad @ s @ replicate 0 pad)"
      using mid a by (simp add: w lo hi)
    then show ?thesis using a mid unfolding s ls y'_def n_def by auto
  qed
qed


lemma batch_item_ok:
  assumes "m + 1 < length y"
  shows "batch_item y mask_tok pad R m = Inr (projr (window y mask_tok pad R m), y ! (m + 1))"
  using window_padded [OF assms, of mask_tok pad R] by (auto simp: batch_item_def)

text \<open>A group that starts before the last token is built, and is not empty.\<close>

lemma build_batch_ok:
  assumes "0 < batch_size" "min_ix + 1 < length y"
  shows "build_batch y mask_tok pad R batch_size min_ix =
           Inr (map (\<lambda>m. projr (window y mask_tok pad R m))
                    [min_ix..<min (min_ix + batch_size) (length y - 1)],
                map (\<lambda>m. y ! (m + 1)) [min_ix..<min (min_ix + batch_size) (length y - 1)])"
proof -
  let ?ixs = "[min_ix..<min (min_ix + batch_size) (length y - 1)]"
  have n: "0 < length y" using assms by (cases y) simp_all
  have ne: "?ixs \<noteq> []" using assms by simp
  have "mapM (batch_item y mask_tok pad R) ?ixs =
          Inr (map (\<lambda>m. (projr (window y mask_tok pad R m), y ! (m + 1))) ?ixs)"
  proof (rule mapM_total)
    fix x assume "x \<in> set ?ixs"
    then have "x + 1 < length y" by auto
    then show "batch_item y mask_tok pad R x =
                 Inr (projr (window y mask_tok pad R x), y ! (x + 1))"
      by (rule batch_item_ok)
  qed
  then show ?thesis
    using ne by (simp add: build_batch_def batch_indices_upt [OF n] torch_cat_def comp_def)
qed

text \<open>The group that starts at the last token holds no window: \<open>torch.cat\<close> refuses it.\<close>

lemma build_batch_empty:
  assumes "0 < length y"
  shows "build_batch y mask_tok pad R batch_size (length y - 1) = Inl RuntimeError"
  by (simp add: build_batch_def batch_indices_upt [OF assms] torch_cat_def)

lemma build_batches_fail:
  assumes "0 < batch_size" "0 < length y" "(length y - 1) mod batch_size = 0"
  shows "build_batches y mask_tok pad R batch_size = Inl RuntimeError"
proof -
  have "mapM (build_batch y mask_tok pad R batch_size) (range_step (length y) batch_size)
          = Inl RuntimeError"
  proof (rule mapM_Inl [where x = "length y - 1"])
    show "length y - 1 \<in> set (range_step (length y) batch_size)"
      using assms by (simp add: range_step_set)
    show "build_batch y mask_tok pad R batch_size (length y - 1) = Inl RuntimeError"
      using assms(2) by (rule build_batch_empty)
  next
    fix x'
    assume "x' \<in> set (range_step (length y) batch_size)" "x' \<noteq> length y - 1"
    then have "x' + 1 < length y" using assms(1) by (auto simp: range_step_set)
    then show "\<exists>v. build_batch y mask_tok pad R batch_size x' = Inr v"
      using build_batch_ok [OF assms(1)] by blast
  qed
  then show ?thesis using assms(1) by (simp add: build_batches_def)
qed

lemma range_step_last:
  assumes "0 < batch_size" "0 < n" "(n - 1) mod batch_size = 0"
  shows "last (range_step n batch_size) = n - 1"
proof -
  define q where "q = (n - 1) div batch_size"
  have q: "n - 1 = q * batch_size"
    using assms(3) by (simp add: q_def mod_0_imp_dvd dvd_div_mult_self)
  have "(n + batch_size - 1) div batch_size = (q * batch_size + batch_size) div batch_size"
    using q assms(2) by (metis Nat.add_diff_assoc2 Suc_leI One_nat_def)
  also have "\<dots> = Suc q" using assms(1) by simp
  finally show ?thesis using q by (simp add: range_step_def last_map del: One_nat_def)
qed


section \<open>Facts about ranking\<close>



lemma stable_argsort_ok: "argsort_ok stable_argsort"
  by (simp add: argsort_ok_def stable_argsort_def)

lemma argsort_neg_length: "argsort_ok (np_argsort self) \<Longrightarrow> length (argsort_neg self d) = length d"
  by (simp add: argsort_ok_def argsort_neg_def)

lemma argsort_neg_set: "argsort_ok (np_argsort self) \<Longrightarrow> set (argsort_neg self d) = {0..<length d}"
  by (simp add: argsort_ok_def argsort_neg_def)


lemma argsort_neg_sorted:
  assumes "argsort_ok (np_argsort self)"
  shows "sorted (map (\<lambda>j. - (d ! j)) (argsort_neg self d))"
proof -
  have s: "sorted (map (\<lambda>j. map uminus d ! j) (argsort_neg self d))"
    using assms by (simp add: argsort_ok_def argsort_neg_def)
  have "map (\<lambda>j. map uminus d ! j) (argsort_neg self d) = map (\<lambda>j. - (d ! j)) (argsort_neg self d)"
    using argsort_neg_set [OF assms, of d] by (intro map_cong) auto
  then show ?thesis using s by (simp only:)
qed







section \<open>Facts about rounding, softmax and the top-k lists\<close>

lemma round_half_even_bounds: "\<lfloor>x\<rfloor> \<le> round_half_even x \<and> round_half_even x \<le> \<lfloor>x\<rfloor> + 1"
  by (simp add: round_half_even_def Let_def)

lemma round_half_even_mono:
  assumes "x \<le> y"
  shows "round_half_even x \<le> round_half_even y"
proof (cases "\<lfloor>x\<rfloor> = \<lfloor>y\<rfloor>")
  case True
  then show ?thesis using assms
    by (auto simp: round_half_even_def Let_def)
next
  case False
  then have "\<lfloor>x\<rfloor> + 1 \<le> \<lfloor>y\<rfloor>" using floor_mono [OF assms] by linarith
  then show ?thesis
    using round_half_even_bounds [of x] round_half_even_bounds [of y] by linarith
qed

lemma round_half_even_of_int: "round_half_even (of_int k) = k"
  by (simp add: round_half_even_def Let_def)

lemma round5_mono: "x \<le> y \<Longrightarrow> round5 x \<le> round5 y"
  by (simp add: round5_def round_half_even_mono divide_right_mono)

lemma round5_0: "round5 0 = 0"
  by (simp add: round5_def round_half_even_def)

lemma round5_1: "round5 1 = 1"
  using round_half_even_of_int [of 100000] by (simp add: round5_def)

lemma round5_unit: "0 \<le> x \<Longrightarrow> x \<le> 1 \<Longrightarrow> 0 \<le> round5 x \<and> round5 x \<le> 1"
  using round5_mono [of 0 x] round5_mono [of x 1] by (simp add: round5_0 round5_1)

lemma round5_decimals: "round5 x * 100000 \<in> \<int>"
  by (simp add: round5_def)

lemma softmax_length: "length (softmax xs) = length xs"
  by (simp add: softmax_def)

lemma softmax_unit:
  assumes "j < length xs"
  shows "0 \<le> softmax xs ! j \<and> softmax xs ! j \<le> 1"
proof -
  have pos: "\<And>e. e \<in> set (map exp xs) \<Longrightarrow> 0 \<le> e" by auto
  have "exp (xs ! j) \<in> set (map exp xs)" using assms by simp
  then have le: "exp (xs ! j) \<le> sum_list (map exp xs)"
    using pos by (meson member_le_sum_list)
  have "0 < exp (xs ! j)" by simp
  then have "0 < sum_list (map exp xs)" using le by linarith
  then show ?thesis using le assms by (simp add: softmax_def)
qed

lemma argsort_neg_desc:
  assumes "argsort_ok (np_argsort self)"
  shows "sorted_wrt (\<ge>) (map (\<lambda>p. d ! p) (argsort_neg self d))"
proof -
  have "sorted (map (\<lambda>j. - (d ! j)) (argsort_neg self d))"
    using assms by (rule argsort_neg_sorted)
  then show ?thesis by (simp add: sorted_wrt_map)
qed

lemma topk_desc:
  assumes "argsort_ok (np_argsort self)"
  shows "sorted_wrt (\<ge>) (map (\<lambda>p. d ! p) (take k (argsort_neg self d)))"
  using argsort_neg_desc [OF assms, of d] by (simp add: sorted_wrt_map sorted_wrt_take)

lemma topk_round_desc:
  assumes "argsort_ok (np_argsort self)"
  shows "sorted_wrt (\<ge>) (map round5 (map (\<lambda>p. d ! p) (take k (argsort_neg self d))))"
  using topk_desc [OF assms, of d k]
  by (auto simp: sorted_wrt_map intro: sorted_wrt_mono_rel [rotated] round5_mono)

lemma topk_length:
  assumes "argsort_ok (np_argsort self)"
  shows "length (take k (argsort_neg self d)) = min k (length d)"
  using argsort_neg_length [OF assms, of d] by (simp add: min.commute)

lemma postprocess_eq: "LM_mega_postprocess = LM_postprocess"
  by (rule ext) (simp add: LM_mega_postprocess_def LM_postprocess_def)


section \<open>Facts about the causal pipeline\<close>

lemma nth_err_bind:
  "((case nth_err xs i of Inl e \<Rightarrow> Inl e | Inr row \<Rightarrow> g row) = Inr v)
     = (i < length xs \<and> g (xs ! i) = Inr v)"
  by (simp add: nth_err_def)

lemma nth_err_Inr: "(nth_err xs i = Inr v) = (i < length xs \<and> xs ! i = v)"
  by (auto simp: nth_err_def)

lemma mapM_upt_nth:
  "mapM f [0..<n] = Inr ys \<Longrightarrow> length ys = n \<and> (\<forall>i<n. f i = Inr (ys ! i))"
  using mapM_length [of f "[0..<n]" ys] mapM_nth [of f "[0..<n]" ys] by auto

lemma decoder_lookups_length:
  "mapM (decoder_lookup self) ids = Inr toks \<Longrightarrow> length toks = length ids"
  by (rule mapM_length)

text \<open>What a payload returned by the causal pipeline consists of.\<close>

lemma LM_check_probabilities_Inr:
  assumes "LM_check_probabilities self in_text topk = Inr p"
  shows "\<exists>logits. lm_model self (enc_encode self (lm_preprocess self in_text)) = Inr logits \<and>
     length (bpe_strings p) = length (enc_encode self (lm_preprocess self in_text)) \<and>
     length (real_topk p) = length (enc_encode self (lm_preprocess self in_text)) - 1 \<and>
     length (pred_topk p) = length (enc_encode self (lm_preprocess self in_text)) - 1 \<and>
     (\<forall>i < length (enc_encode self (lm_preprocess self in_text)) - 1.
        i + 1 < length logits \<and>
        where_first (argsort_neg self (softmax (logits ! i)))
          (enc_encode self (lm_preprocess self in_text) ! (i + 1)) = Inr (fst (real_topk p ! i)) \<and>
        enc_encode self (lm_preprocess self in_text) ! (i + 1) < length (logits ! i) \<and>
        snd (real_topk p ! i) =
          round5 (softmax (logits ! i) ! (enc_encode self (lm_preprocess self in_text) ! (i + 1))) \<and>
        map snd (pred_topk p ! i) =
          map round5 (map (\<lambda>q. softmax (logits ! i) ! q)
                          (take topk (argsort_neg self (softmax (logits ! i))))))"
proof -
  let ?ctx = "enc_encode self (lm_preprocess self in_text)"
  note a0 = assms [unfolded LM_check_probabilities_def Let_def]
  from a0 obtain logits where m: "lm_model self ?ctx = Inr logits"
    by (auto split: sum.splits)
  let ?yhat = "map softmax (butlast logits)"
  let ?y = "drop 1 ?ctx"
  let ?sp = "map (argsort_neg self) ?yhat"
  let ?posf = "\<lambda>i. case nth_err ?sp i of Inl e \<Rightarrow> Inl e | Inr row \<Rightarrow> where_first row (?y ! i)"
  let ?probf = "\<lambda>i. case nth_err ?yhat i of Inl e \<Rightarrow> Inl e | Inr row \<Rightarrow> nth_err row (?y ! i)"
  let ?predf = "\<lambda>i. case mapM (decoder_lookup self) (take topk (?sp ! i)) of
                           Inl e \<Rightarrow> Inl e
                         | Inr toks \<Rightarrow>
                             Inr (zip toks
                                   (map round5
                                     (map (\<lambda>p. ?yhat ! i ! p) (take topk (?sp ! i)))))"
  note a1 = a0 [unfolded m sum.case]
  from a1 obtain pos where pos: "mapM ?posf [0..<length ?y] = Inr pos"
    by (auto split: sum.splits)
  note a2 = a1 [unfolded pos sum.case]
  from a2 obtain probs where probs: "mapM ?probf [0..<length ?y] = Inr probs"
    by (auto split: sum.splits)
  note a3 = a2 [unfolded probs sum.case]
  from a3 obtain bpe where bpe: "mapM (decoder_lookup self) ?ctx = Inr bpe"
    by (auto split: sum.splits)
  note a4 = a3 [unfolded bpe sum.case]
  from a4 obtain pred where pred: "mapM ?predf [0..<length ?y] = Inr pred"
    by (auto split: sum.splits)
  note a5 = a4 [unfolded pred sum.case]
  have p: "p = \<lparr>bpe_strings = map LM_postprocess bpe,
               real_topk = zip pos (map round5 probs),
               pred_topk = map (map (\<lambda>t. (LM_postprocess (fst t), snd t))) pred\<rparr>"
    using a5 by simp
  have ly: "length ?y = length ?ctx - 1" by simp
  have lpos: "length pos = length ?ctx - 1" and posn: "\<forall>i<length ?ctx - 1. ?posf i = Inr (pos ! i)"
    using mapM_upt_nth [OF pos] by simp_all
  have lprobs: "length probs = length ?ctx - 1" and probsn: "\<forall>i<length ?ctx - 1. ?probf i = Inr (probs ! i)"
    using mapM_upt_nth [OF probs] by simp_all
  have lpred: "length pred = length ?ctx - 1" and predn: "\<forall>i<length ?ctx - 1. ?predf i = Inr (pred ! i)"
    using mapM_upt_nth [OF pred] by simp_all
  have lbpe: "length bpe = length ?ctx" using mapM_length [OF bpe] .
  have each: "i + 1 < length logits \<and>
        where_first (argsort_neg self (softmax (logits ! i))) (?ctx ! (i + 1)) = Inr (fst (real_topk p ! i)) \<and>
        ?ctx ! (i + 1) < length (logits ! i) \<and>
        snd (real_topk p ! i) = round5 (softmax (logits ! i) ! (?ctx ! (i + 1))) \<and>
        map snd (pred_topk p ! i) =
          map round5 (map (\<lambda>q. softmax (logits ! i) ! q)
                          (take topk (argsort_neg self (softmax (logits ! i)))))"
    if i: "i < length ?ctx - 1" for i
  proof -
    have yi: "?y ! i = ?ctx ! (i + 1)" using i by simp
    have "?posf i = Inr (pos ! i)" using posn i by blast
    then have pw: "i < length ?sp \<and> where_first (?sp ! i) (?y ! i) = Inr (pos ! i)"
      unfolding nth_err_bind .
    have il: "i < length (butlast logits)" using pw by simp
    have w: "where_first (?sp ! i) (?y ! i) = Inr (pos ! i)" using pw by blast
    have row: "butlast logits ! i = logits ! i" using il by (simp add: nth_butlast)
    have spi: "?sp ! i = argsort_neg self (softmax (logits ! i))" "?yhat ! i = softmax (logits ! i)"
      using il row by simp_all
    have "?probf i = Inr (probs ! i)" using probsn i by blast
    then have pr0: "i < length ?yhat \<and> ?y ! i < length (?yhat ! i) \<and> ?yhat ! i ! (?y ! i) = probs ! i"
      unfolding nth_err_bind nth_err_Inr .
    have pr: "?y ! i < length (?yhat ! i)" "?yhat ! i ! (?y ! i) = probs ! i"
      using pr0 by blast+
    have "?predf i = Inr (pred ! i)" using predn i by blast
    then obtain toks where toks: "mapM (decoder_lookup self) (take topk (?sp ! i)) = Inr toks"
      and pi: "pred ! i = zip toks (map round5 (map (\<lambda>p. ?yhat ! i ! p) (take topk (?sp ! i))))"
      by (auto split: sum.splits)
    have lt: "length toks = length (take topk (?sp ! i))" using mapM_length [OF toks] .
    have s1: "map snd (pred ! i) = map round5 (map (\<lambda>p. ?yhat ! i ! p) (take topk (?sp ! i)))"
      unfolding pi using lt by (simp del: length_take)
    have r1: "real_topk p ! i = (pos ! i, round5 (probs ! i))"
      using i lpos lprobs by (simp add: p)
    have p1: "pred_topk p ! i = map (\<lambda>t. (LM_postprocess (fst t), snd t)) (pred ! i)"
      using i lpred by (simp add: p)
    have "map snd (pred_topk p ! i) = map snd (pred ! i)"
      unfolding p1 by (simp add: comp_def)
    then show ?thesis
      using il w pr s1 r1 unfolding spi yi by (simp add: softmax_length)
  qed
  show ?thesis
    using m lbpe lpos lprobs lpred each by (auto simp: p)
qed


section \<open>Facts about the masked pipeline\<close>

lemma index_rows_Inr:
  assumes "index_rows yhat tgt = Inr probs" and "length yhat \<le> length tgt"
  shows "length yhat \<le> length probs \<and>
         (\<forall>i<length yhat. tgt ! i < length (yhat ! i) \<and> probs ! i = yhat ! i ! (tgt ! i))"
proof -
  consider (eq) "length yhat = length tgt"
    | (one) "length yhat \<noteq> length tgt" "length tgt = 1"
    | (row) "length yhat \<noteq> length tgt" "length tgt \<noteq> 1" "length yhat = 1"
    | (bad) "length yhat \<noteq> length tgt" "length tgt \<noteq> 1" "length yhat \<noteq> 1"
    by blast
  then show ?thesis
  proof cases
    case eq
    then have "mapM (\<lambda>i. nth_err (yhat ! i) (tgt ! i)) [0..<length yhat] = Inr probs"
      using assms(1) by (simp add: index_rows_def Let_def)
    from mapM_upt_nth [OF this] show ?thesis by (auto simp: nth_err_Inr)
  next
    case one
    then have "length yhat = 0" using assms(2) by linarith
    then show ?thesis by simp
  next
    case row
    then have m: "mapM (\<lambda>t. nth_err (yhat ! 0) t) tgt = Inr probs"
      using assms(1) by (simp add: index_rows_def Let_def)
    have l: "length probs = length tgt" using mapM_length [OF m] .
    have "0 < length tgt" using row assms(2) by linarith
    from mapM_nth [OF m this] have "tgt ! 0 < length (yhat ! 0) \<and> yhat ! 0 ! (tgt ! 0) = probs ! 0"
      by (simp add: nth_err_Inr)
    then show ?thesis using row l assms(2) by auto
  next
    case bad
    then show ?thesis using assms(1) by (simp add: index_rows_def Let_def)
  qed
qed

text \<open>What one ranked group consists of.\<close>

lemma rank_batch_Inr:
  assumes "rank_batch self topk R (src, tgt) = Inr (rt, pt)"
  shows "\<exists>out. bert_model self src = Inr out \<and> length rt = length out \<and> length pt = length out \<and>
     (\<forall>i<length out.
        R + 1 < length (out ! i) \<and> i < length tgt \<and>
        where_first (argsort_neg self (softmax (out ! i ! (R + 1)))) (tgt ! i) = Inr (fst (rt ! i)) \<and>
        tgt ! i < length (out ! i ! (R + 1)) \<and>
        snd (rt ! i) = softmax (out ! i ! (R + 1)) ! (tgt ! i) \<and>
        pt ! i = zip (map (id_to_token self) (take topk (argsort_neg self (softmax (out ! i ! (R + 1))))))
                     (map (\<lambda>q. softmax (out ! i ! (R + 1)) ! q)
                          (take topk (argsort_neg self (softmax (out ! i ! (R + 1)))))))"
proof -
  note a0 = assms [unfolded rank_batch_def Let_def prod.case]
  from a0 obtain out where m: "bert_model self src = Inr out"
    by (auto split: sum.splits)
  note a1 = a0 [unfolded m sum.case]
  from a1 obtain logits where lg: "mapM (\<lambda>row. nth_err row (R + 1)) out = Inr logits"
    by (auto split: sum.splits)
  note a2 = a1 [unfolded lg sum.case]
  let ?yhat = "map softmax logits"
  let ?sp = "map (argsort_neg self) ?yhat"
  let ?posf = "\<lambda>i. case nth_err tgt i of Inl e \<Rightarrow> Inl e | Inr t \<Rightarrow> where_first (?sp ! i) t"
  from a2 obtain pos where pos: "mapM ?posf [0..<length ?yhat] = Inr pos"
    by (auto split: sum.splits)
  note a3 = a2 [unfolded pos sum.case]
  from a3 obtain probs where probs: "index_rows ?yhat tgt = Inr probs"
    by (auto split: sum.splits)
  note a4 = a3 [unfolded probs sum.case]
  have rt: "rt = zip pos probs"
    and pt: "pt = map (\<lambda>i. zip (map (id_to_token self) (take topk (?sp ! i)))
                              (map (\<lambda>p. ?yhat ! i ! p) (take topk (?sp ! i))))
                     [0..<length ?yhat]"
    using a4 by simp_all
  have ll: "length logits = length out" using mapM_length [OF lg] .
  have lgn: "\<forall>i<length out. R + 1 < length (out ! i) \<and> logits ! i = out ! i ! (R + 1)"
    using mapM_nth [OF lg] by (auto simp: nth_err_Inr)
  have lpos: "length pos = length out" and posn: "\<forall>i<length out. ?posf i = Inr (pos ! i)"
    using mapM_upt_nth [OF pos] ll by simp_all
  have tg: "\<forall>i<length out. i < length tgt \<and> where_first (?sp ! i) (tgt ! i) = Inr (pos ! i)"
    using posn unfolding nth_err_bind .
  have "length out \<le> length tgt"
  proof (cases "length out")
    case 0
    then show ?thesis by simp
  next
    case (Suc k)
    then have "k < length tgt" using tg by simp
    then show ?thesis using Suc by simp
  qed
  then have le: "length ?yhat \<le> length tgt" using ll by simp
  from index_rows_Inr [OF probs le]
  have lprobs: "length out \<le> length probs"
    and prn: "\<forall>i<length out. tgt ! i < length (?yhat ! i) \<and> probs ! i = ?yhat ! i ! (tgt ! i)"
    using ll by simp_all
  have lrt: "length rt = length out" using lpos lprobs by (simp add: rt)
  have lpt: "length pt = length out" using ll by (simp add: pt)
  have each: "R + 1 < length (out ! i) \<and> i < length tgt \<and>
        where_first (argsort_neg self (softmax (out ! i ! (R + 1)))) (tgt ! i) = Inr (fst (rt ! i)) \<and>
        tgt ! i < length (out ! i ! (R + 1)) \<and>
        snd (rt ! i) = softmax (out ! i ! (R + 1)) ! (tgt ! i) \<and>
        pt ! i = zip (map (id_to_token self) (take topk (argsort_neg self (softmax (out ! i ! (R + 1))))))
                     (map (\<lambda>q. softmax (out ! i ! (R + 1)) ! q)
                          (take topk (argsort_neg self (softmax (out ! i ! (R + 1))))))"
    if i: "i < length out" for i
  proof -
    have l1: "R + 1 < length (out ! i)" "logits ! i = out ! i ! (R + 1)" using lgn i by blast+
    have yi: "?yhat ! i = softmax (out ! i ! (R + 1))" "?sp ! i = argsort_neg self (softmax (out ! i ! (R + 1)))"
      using i ll l1 by simp_all
    have t1: "i < length tgt" "where_first (?sp ! i) (tgt ! i) = Inr (pos ! i)" using tg i by blast+
    have p1: "tgt ! i < length (?yhat ! i)" "probs ! i = ?yhat ! i ! (tgt ! i)" using prn i by blast+
    have r1: "rt ! i = (pos ! i, probs ! i)" using i lpos lprobs by (simp add: rt)
    have q1: "pt ! i = zip (map (id_to_token self) (take topk (?sp ! i)))
                           (map (\<lambda>p. ?yhat ! i ! p) (take topk (?sp ! i)))"
      using i ll unfolding pt by simp
    show ?thesis
      using l1(1) t1 p1 r1 q1 unfolding yi by (simp add: softmax_length)
  qed
  show ?thesis using m lrt lpt each by blast
qed


lemma build_batch_Inr:
  assumes "build_batch y mask_tok pad R batch_size min_ix = Inr (src, tgt)"
  shows "length src = length tgt \<and>
         tgt = map (\<lambda>m. y ! (m + 1)) (batch_indices (length y) batch_size min_ix)"
proof -
  let ?ixs = "batch_indices (length y) batch_size min_ix"
  note a0 = assms [unfolded build_batch_def]
  from a0 obtain items where it: "mapM (batch_item y mask_tok pad R) ?ixs = Inr items"
    by (auto split: sum.splits)
  note a1 = a0 [unfolded it sum.case]
  have st: "src = map fst items" "tgt = map snd items"
    using a1 by (auto simp: torch_cat_def split: if_splits)
  have l: "length items = length ?ixs" using mapM_length [OF it] .
  have "map snd items = map (\<lambda>m. y ! (m + 1)) ?ixs"
  proof (rule nth_equalityI)
    show "length (map snd items) = length (map (\<lambda>m. y ! (m + 1)) ?ixs)" using l by simp
  next
    fix j assume "j < length (map snd items)"
    then have j: "j < length ?ixs" using l by simp
    from mapM_nth [OF it j] have "snd (items ! j) = y ! (?ixs ! j + 1)"
      by (auto simp: batch_item_def split: sum.splits) (metis snd_conv)
    then show "map snd items ! j = map (\<lambda>m. y ! (m + 1)) ?ixs ! j" using j l by simp
  qed
  then show ?thesis using st l by simp
qed

lemma concat_chunks:
  "concat (map (\<lambda>k. [k * B..<min (k * B + B) M]) [0..<c]) = [0..<min (c * B) M]"
proof (induction c)
  case 0
  then show ?case by simp
next
  case (Suc c)
  have "[0..<min (c * B) M] @ [c * B..<min (c * B + B) M] = [0..<min (c * B + B) M]"
  proof (cases "c * B \<le> M")
    case True
    then obtain k where k: "min (c * B + B) M = c * B + k"
      by (metis le_Suc_ex le_add1 min.boundedI)
    have "[0..<c * B + k] = [0..<c * B] @ [c * B..<c * B + k]"
      by (rule upt_add_eq_append) simp
    then show ?thesis using True k by (simp add: min_absorb1)
  next
    case False
    then show ?thesis by (simp add: min_def)
  qed
  then show ?case using Suc by (simp add: add.commute)
qed

lemma batch_indices_concat:
  assumes "0 < batch_size"
  shows "concat (map (batch_indices n batch_size) (range_step n batch_size)) = [0..<n - 1]"
proof (cases "n = 0")
  case True
  have "(batch_size - 1) div batch_size = 0" using assms by simp
  then show ?thesis using True by (simp add: range_step_def)
next
  case False
  then have n: "0 < n" by simp
  let ?c = "(n + batch_size - 1) div batch_size"
  have "\<not> ?c * batch_size < n" using range_step_chunks [OF assms, of ?c n] by simp
  then have m: "min (?c * batch_size) (n - 1) = n - 1" by simp
  have "concat (map (batch_indices n batch_size) (range_step n batch_size))
        = concat (map (\<lambda>k. [k * batch_size..<min (k * batch_size + batch_size) (n - 1)]) [0..<?c])"
    by (simp add: range_step_def comp_def batch_indices_upt [OF n] del: One_nat_def)
  then show ?thesis unfolding concat_chunks m .
qed

lemma build_batches_Inr:
  assumes "build_batches y mask_tok pad R batch_size = Inr batches"
  shows "0 < batch_size \<and> concat (map snd batches) = drop 1 y \<and>
         (\<forall>b\<in>set batches. length (fst b) = length (snd b))"
proof -
  have B: "0 < batch_size" using assms by (auto simp: build_batches_def split: if_splits)
  let ?rs = "range_step (length y) batch_size"
  have m: "mapM (build_batch y mask_tok pad R batch_size) ?rs = Inr batches"
    using assms B by (simp add: build_batches_def)
  have l: "length batches = length ?rs" using mapM_length [OF m] .
  have each: "length (fst (batches ! j)) = length (snd (batches ! j)) \<and>
        snd (batches ! j) = map (\<lambda>m. y ! (m + 1)) (batch_indices (length y) batch_size (?rs ! j))"
    if "j < length ?rs" for j
    using build_batch_Inr [of y mask_tok pad R batch_size "?rs ! j"
        "fst (batches ! j)" "snd (batches ! j)"] mapM_nth [OF m that]
    by simp
  have "map snd batches = map (\<lambda>x. map (\<lambda>m. y ! (m + 1)) (batch_indices (length y) batch_size x)) ?rs"
    by (rule nth_equalityI) (use l each in auto)
  then have "concat (map snd batches)
        = map (\<lambda>m. y ! (m + 1)) (concat (map (batch_indices (length y) batch_size) ?rs))"
    by (simp add: map_concat comp_def)
  also have "\<dots> = map (\<lambda>m. y ! (m + 1)) [0..<length y - 1]"
    by (simp only: batch_indices_concat [OF B])
  also have "\<dots> = drop 1 y"
    by (rule nth_equalityI) auto
  finally have c: "concat (map snd batches) = drop 1 y" .
  have "\<forall>b\<in>set batches. length (fst b) = length (snd b)"
  proof
    fix b assume "b \<in> set batches"
    then obtain i where "i < length batches" "batches ! i = b" by (auto simp: in_set_conv_nth)
    then show "length (fst b) = length (snd b)" using each [of i] l by simp
  qed
  then show ?thesis using B c by blast
qed

text \<open>What a payload returned by the masked pipeline consists of.\<close>

lemma BERTLM_check_probabilities_Inr:
  assumes "BERTLM_check_probabilities self in_text topk R batch_size = Inr p"
    and "tokenizer_tokenize self
             ([91, 67, 76, 83, 93, 32] @ bert_preprocess self in_text @ [32, 91, 83, 69, 80, 93])
           = tokenized_text"
  shows "\<exists>batches ranked.
     build_batches (map (token_to_id self) tokenized_text) (self_mask_tok self) (self_pad self)
       R batch_size = Inr batches \<and>
     mapM (rank_batch self topk R) batches = Inr ranked \<and>
     bpe_strings p = map BERTLM_postprocess tokenized_text \<and>
     real_topk p = concat (map fst ranked) \<and>
     pred_topk p = map (map (\<lambda>t. (BERTLM_postprocess (fst t), snd t))) (concat (map snd ranked))"
proof -
  note a0 = assms(1) [unfolded BERTLM_check_probabilities_def Let_def assms(2)]
  from a0 obtain batches where b: "build_batches (map (token_to_id self) tokenized_text)
      (self_mask_tok self) (self_pad self) R batch_size = Inr batches"
    by (auto split: sum.splits)
  note a1 = a0 [unfolded b sum.case]
  from a1 obtain ranked where r: "mapM (rank_batch self topk R) batches = Inr ranked"
    by (auto split: sum.splits)
  note a2 = a1 [unfolded r sum.case]
  show ?thesis using b r a2 by auto
qed

text \<open>The numbers of rank entries and of top-k lists of the ranked groups.\<close>

lemma ranked_lengths:
  assumes "list_all2 (\<lambda>b r. rank_batch self topk R b = Inr r) batches ranked"
  shows "length (concat (map fst ranked)) = length (concat (map snd ranked)) \<and>
         ((\<forall>src out. bert_model self src = Inr out \<longrightarrow> length out = length src) \<longrightarrow>
          (\<forall>b\<in>set batches. length (fst b) = length (snd b)) \<longrightarrow>
          length (concat (map fst ranked)) = length (concat (map snd batches)))"
  using assms
proof (induction rule: list_all2_induct)
  case Nil
  then show ?case by simp
next
  case (Cons b bs r rs)
  obtain src tgt rt pt where e: "b = (src, tgt)" "r = (rt, pt)" by (cases b, cases r) auto
  from rank_batch_Inr [of self topk R src tgt rt pt] Cons.hyps(1) e
  obtain out where o: "bert_model self src = Inr out" "length rt = length out" "length pt = length out"
    by auto
  show ?case using Cons.IH o e by auto
qed


section \<open>The pipelines on the concrete collaborators\<close>

lemma example_softmax: "softmax [ln 1, ln 2, ln 3, ln 4, ln 5] = [1 / 15, 2 / 15, 1 / 5, 4 / 15, 1 / 3]"
  by (simp add: softmax_def)

lemma example_argsort:
  "argsort_neg example_bert [1 / 15, 2 / 15, 1 / 5, 4 / 15, 1 / 3] = [4, 3, 2, 1, 0]"
  by (simp add: argsort_neg_def example_bert_def stable_argsort_def upt_rec)

lemma example_tokens_empty:
  "tokenizer_tokenize example_bert
     ([91, 67, 76, 83, 93, 32] @ bert_preprocess example_bert [] @ [32, 91, 83, 69, 80, 93])
   = [[91, 67, 76, 83, 93], [91, 83, 69, 80, 93]]"
  by (simp add: example_bert_def)

lemma example_tokens_word:
  "tokenizer_tokenize example_bert
     ([91, 67, 76, 83, 93, 32] @ bert_preprocess example_bert [119] @ [32, 91, 83, 69, 80, 93])
   = [[91, 67, 76, 83, 93], [119], [91, 83, 69, 80, 93]]"
  by (simp add: example_bert_def)

lemma example_ids:
  "map (token_to_id example_bert) [[91, 67, 76, 83, 93], [91, 83, 69, 80, 93]] = [1, 2]"
  "map (token_to_id example_bert) [[91, 67, 76, 83, 93], [119], [91, 83, 69, 80, 93]] = [1, 4, 2]"
  "self_mask_tok example_bert = 3" "self_pad example_bert = 0"
  by (simp_all add: example_bert_def)

lemma example_batches_empty:
  "build_batches [1, 2] 3 0 20 20 = Inr [([[0, 0, 0, 0, 0, 0, 0, 0, 0, 0, 0, 0, 0, 0, 0, 0, 0, 0, 0, 0, 1, 0, 0, 0, 0, 0, 0, 0, 0, 0, 0, 0, 0, 0, 0, 0, 0, 0, 0, 0, 0]], [2])]"
  by code_simp

lemma example_batches_word:
  "build_batches [1, 4, 2] 3 0 20 20 = Inr [([[0, 0, 0, 0, 0, 0, 0, 0, 0, 0, 0, 0, 0, 0, 0, 0, 0, 0, 0, 0, 1, 3, 0, 0, 0, 0, 0, 0, 0, 0, 0, 0, 0, 0, 0, 0, 0, 0, 0, 0, 0], [0, 0, 0, 0, 0, 0, 0, 0, 0, 0, 0, 0, 0, 0, 0, 0, 0, 0, 0, 1, 4, 0, 0, 0, 0, 0, 0, 0, 0, 0, 0, 0, 0, 0, 0, 0, 0, 0, 0, 0, 0]], [4, 2])]"
  by code_simp

lemma example_rank_empty:
  "rank_batch example_bert 5 20 ([[0, 0, 0, 0, 0, 0, 0, 0, 0, 0, 0, 0, 0, 0, 0, 0, 0, 0, 0, 0, 1, 0, 0, 0, 0, 0, 0, 0, 0, 0, 0, 0, 0, 0, 0, 0, 0, 0, 0, 0, 0]], [2]) = Inr ([(2, 1 / 5)], [[([119], 1 / 3), ([91, 77, 65, 83, 75, 93], 4 / 15),
            ([91, 83, 69, 80, 93], 1 / 5), ([91, 67, 76, 83, 93], 2 / 15),
            ([91, 80, 65, 68, 93], 1 / 15)]])"
  by (simp add: rank_batch_def example_bert_def nth_err_def Let_def index_rows_def upt_rec
      example_softmax [simplified] argsort_neg_def stable_argsort_def example_vocab_def)

lemma example_rank_word:
  "rank_batch example_bert 5 20 ([[0, 0, 0, 0, 0, 0, 0, 0, 0, 0, 0, 0, 0, 0, 0, 0, 0, 0, 0, 0, 1, 3, 0, 0, 0, 0, 0, 0, 0, 0, 0, 0, 0, 0, 0, 0, 0, 0, 0, 0, 0], [0, 0, 0, 0, 0, 0, 0, 0, 0, 0, 0, 0, 0, 0, 0, 0, 0, 0, 0, 1, 4, 0, 0, 0, 0, 0, 0, 0, 0, 0, 0, 0, 0, 0, 0, 0, 0, 0, 0, 0, 0]], [4, 2]) = Inr ([(0, 1 / 3), (2, 1 / 5)], [[([119], 1 / 3), ([91, 77, 65, 83, 75, 93], 4 / 15),
            ([91, 83, 69, 80, 93], 1 / 5), ([91, 67, 76, 83, 93], 2 / 15),
            ([91, 80, 65, 68, 93], 1 / 15)], [([119], 1 / 3), ([91, 77, 65, 83, 75, 93], 4 / 15),
            ([91, 83, 69, 80, 93], 1 / 5), ([91, 67, 76, 83, 93], 2 / 15),
            ([91, 80, 65, 68, 93], 1 / 15)]])"
  by (simp add: rank_batch_def example_bert_def nth_err_def Let_def index_rows_def upt_rec
      example_softmax [simplified] argsort_neg_def stable_argsort_def example_vocab_def)

lemma example_bert_empty:
  "BERTLM_check_probabilities example_bert [] 5 20 20 =
     Inr \<lparr>bpe_strings = [[288, 91, 67, 76, 83, 93], [266, 288, 91, 83, 69, 80, 93]],
          real_topk = [(2, 1 / 5)],
          pred_topk = [[([288, 119], 1 / 3), ([288, 91, 77, 65, 83, 75, 93], 4 / 15),
            ([266, 288, 91, 83, 69, 80, 93], 1 / 5), ([288, 91, 67, 76, 83, 93], 2 / 15),
            ([288, 91, 80, 65, 68, 93], 1 / 15)]]\<rparr>"
  unfolding BERTLM_check_probabilities_def example_tokens_empty Let_def example_ids
    example_batches_empty
  by (simp only: mapM.simps example_rank_empty sum.case)
     (simp add: BERTLM_postprocess_def startswith_def)

lemma example_bert_word:
  "BERTLM_check_probabilities example_bert [119] 5 20 20 =
     Inr \<lparr>bpe_strings = [[288, 91, 67, 76, 83, 93], [288, 119], [266, 288, 91, 83, 69, 80, 93]],
          real_topk = [(0, 1 / 3), (2, 1 / 5)],
          pred_topk = [[([288, 119], 1 / 3), ([288, 91, 77, 65, 83, 75, 93], 4 / 15),
            ([266, 288, 91, 83, 69, 80, 93], 1 / 5), ([288, 91, 67, 76, 83, 93], 2 / 15),
            ([288, 91, 80, 65, 68, 93], 1 / 15)], [([288, 119], 1 / 3), ([288, 91, 77, 65, 83, 75, 93], 4 / 15),
            ([266, 288, 91, 83, 69, 80, 93], 1 / 5), ([288, 91, 67, 76, 83, 93], 2 / 15),
            ([288, 91, 80, 65, 68, 93], 1 / 15)]]\<rparr>"
  unfolding BERTLM_check_probabilities_def example_tokens_word Let_def example_ids
    example_batches_word
  by (simp only: mapM.simps example_rank_word sum.case)
     (simp add: BERTLM_postprocess_def startswith_def)

lemma example_lm_softmax: "softmax [ln 7, ln 2, ln 1] = [7 / 10, 1 / 5, 1 / 10]"
  by (simp add: softmax_def)

lemma example_lm_argsort: "argsort_neg example_lm [7 / 10, 1 / 5, 1 / 10] = [0, 1, 2]"
  by (simp add: argsort_neg_def example_lm_def stable_argsort_def upt_rec)

lemma example_round5: "round5 (7 / 10) = 7 / 10" "round5 (1 / 5) = 1 / 5" "round5 (1 / 10) = 1 / 10"
  by (simp_all add: round5_def round_half_even_def)

lemma example_lm_abc:
  "LM_check_probabilities example_lm [97, 98, 99] 2 =
     Inr \<lparr>bpe_strings = [[97], [98], [99]],
          real_topk = [(1, 1 / 5), (2, 1 / 10)],
          pred_topk = [[([97], 7 / 10), ([98], 1 / 5)], [([97], 7 / 10), ([98], 1 / 5)]]\<rparr>"
  by (simp add: LM_check_probabilities_def example_lm_def Let_def nth_err_def upt_rec
      decoder_lookup_def example_lm_softmax [simplified] argsort_neg_def stable_argsort_def
      example_round5 LM_postprocess_def startswith_def)

lemma example_lm_empty:
  "LM_check_probabilities example_lm [] 2 = Inr \<lparr>bpe_strings = [], real_topk = [], pred_topk = []\<rparr>"
  by (simp add: LM_check_probabilities_def example_lm_def Let_def)


section \<open>Further facts about the pipelines and the examples\<close>

lemma LM_mega_check_probabilities_eq:
  "LM_mega_check_probabilities self in_text topk = LM_check_probabilities self in_text topk"
  unfolding LM_mega_check_probabilities_def LM_check_probabilities_def postprocess_eq ..

lemma example_bert_shape:
  "\<forall>src out. bert_model example_bert src = Inr out \<longrightarrow> length out = length src"
  by (auto simp: example_bert_def)

lemma example_lm_abc_payload:
  "LM_check_probabilities example_lm [97, 98, 99] 2 = Inr example_lm_payload"
  unfolding example_lm_payload_def by (rule example_lm_abc)

lemma example_bert_word_payload:
  "BERTLM_check_probabilities example_bert [119] 5 20 20 = Inr example_bert_payload"
  unfolding example_bert_payload_def by (rule example_bert_word)

lemma example_lm_context:
  "enc_encode example_lm (lm_preprocess example_lm [97, 98, 99]) = [0, 1, 2]"
  by (simp add: example_lm_def)

lemma example_lm_logits:
  "lm_model example_lm [0, 1, 2] = Inr [[ln 7, ln 2, ln 1], [ln 7, ln 2, ln 1], [ln 7, ln 2, ln 1]]"
  by (simp add: example_lm_def)


lemma range_step_single:
  assumes "2 \<le> batch_size"
  shows "range_step (Suc (Suc 0)) batch_size = [0]"
proof -
  have "(Suc (Suc 0) + batch_size - 1) div batch_size = 1"
    using assms by (intro div_nat_eqI) simp_all
  then show ?thesis by (simp add: range_step_def)
qed

lemma build_batches_two_tokens:
  assumes "2 \<le> batch_size"
  shows "\<exists>w. window [a, b] mask_tok pad R 0 = Inr w \<and> length w = 2 * R + 1 \<and>
             build_batches [a, b] mask_tok pad R batch_size = Inr [([w], [b])]"
proof -
  have h: "0 + 1 < length [a, b]" by simp
  from window_padded [OF h, of mask_tok pad R]
  obtain w where w: "window [a, b] mask_tok pad R 0 = Inr w" "length w = 2 * R + 1"
    by (auto simp del: list_update.simps)
  have B: "0 < batch_size" using assms by simp
  have m: "min batch_size (Suc 0) = Suc 0" using assms by simp
  have "build_batch [a, b] mask_tok pad R batch_size 0 = Inr ([w], [b])"
    using build_batch_ok [OF B h, of mask_tok pad R] w(1) by (simp add: m)
  then have "build_batches [a, b] mask_tok pad R batch_size = Inr [([w], [b])]"
    using B by (simp add: build_batches_def range_step_single [OF assms])
  then show ?thesis using w by blast
qed

lemma example_window_empty: "window [1, 2] 3 0 20 0 = Inr [0, 0, 0, 0, 0, 0, 0, 0, 0, 0, 0, 0, 0, 0, 0, 0, 0, 0, 0, 0, 1, 0, 0, 0, 0, 0, 0, 0, 0, 0, 0, 0, 0, 0, 0, 0, 0, 0, 0, 0, 0]"
  by code_simp

lemma example_lm_encode_empty: "enc_encode example_lm (lm_preprocess example_lm []) = []"
  by (simp add: example_lm_def)


lemma ranked_member:
  assumes "list_all2 P batches ranked" and "x \<in> set (concat (map g ranked))"
  shows "\<exists>b r. b \<in> set batches \<and> P b r \<and> x \<in> set (g r)"
proof -
  from assms(2) obtain r where r: "r \<in> set ranked" "x \<in> set (g r)" by auto
  then obtain j where j: "j < length ranked" "ranked ! j = r" by (auto simp: in_set_conv_nth)
  have l: "length batches = length ranked" using assms(1) by (rule list_all2_lengthD)
  have "P (batches ! j) r" using list_all2_nthD2 [OF assms(1) j(1)] j(2) by simp
  moreover have "batches ! j \<in> set batches" using j(1) l by simp
  ultimately show ?thesis using r(2) by blast
qed

lemma example_bert_forward:
  "bert_model example_bert [[0, 0, 0, 0, 0, 0, 0, 0, 0, 0, 0, 0, 0, 0, 0, 0, 0, 0, 0, 0, 1, 3, 0, 0, 0, 0, 0, 0, 0, 0, 0, 0, 0, 0, 0, 0, 0, 0, 0, 0, 0], [0, 0, 0, 0, 0, 0, 0, 0, 0, 0, 0, 0, 0, 0, 0, 0, 0, 0, 0, 1, 4, 0, 0, 0, 0, 0, 0, 0, 0, 0, 0, 0, 0, 0, 0, 0, 0, 0, 0, 0, 0]] =
     Inr (map (map (\<lambda>t. [ln 1, ln 2, ln 3, ln 4, ln 5])) [[0, 0, 0, 0, 0, 0, 0, 0, 0, 0, 0, 0, 0, 0, 0, 0, 0, 0, 0, 0, 1, 3, 0, 0, 0, 0, 0, 0, 0, 0, 0, 0, 0, 0, 0, 0, 0, 0, 0, 0, 0], [0, 0, 0, 0, 0, 0, 0, 0, 0, 0, 0, 0, 0, 0, 0, 0, 0, 0, 0, 1, 4, 0, 0, 0, 0, 0, 0, 0, 0, 0, 0, 0, 0, 0, 0, 0, 0, 0, 0, 0, 0]])"
  by (simp add: example_bert_def)

lemma example_bert_scores:
  "map (map (\<lambda>t. [ln 1, ln 2, ln 3, ln 4, ln 5 :: real])) [[0, 0, 0, 0, 0, 0, 0, 0, 0, 0, 0, 0, 0, 0, 0, 0, 0, 0, 0, 0, 1, 3, 0, 0, 0, 0, 0, 0, 0, 0, 0, 0, 0, 0, 0, 0, 0, 0, 0, 0, 0], [0, 0, 0, 0, 0, 0, 0, 0, 0, 0, 0, 0, 0, 0, 0, 0, 0, 0, 0, 1, 4, 0, 0, 0, 0, 0, 0, 0, 0, 0, 0, 0, 0, 0, 0, 0, 0, 0, 0, 0, 0]] ! 0 ! (20 + 1)
     = [ln 1, ln 2, ln 3, ln 4, ln 5]"
  "map (map (\<lambda>t. [ln 1, ln 2, ln 3, ln 4, ln 5 :: real])) [[0, 0, 0, 0, 0, 0, 0, 0, 0, 0, 0, 0, 0, 0, 0, 0, 0, 0, 0, 0, 1, 3, 0, 0, 0, 0, 0, 0, 0, 0, 0, 0, 0, 0, 0, 0, 0, 0, 0, 0, 0], [0, 0, 0, 0, 0, 0, 0, 0, 0, 0, 0, 0, 0, 0, 0, 0, 0, 0, 0, 1, 4, 0, 0, 0, 0, 0, 0, 0, 0, 0, 0, 0, 0, 0, 0, 0, 0, 0, 0, 0, 0]] ! 1 ! (20 + 1)
     = [ln 1, ln 2, ln 3, ln 4, ln 5]"
  by simp_all


lemma map_snd_relabel: "map snd (map (\<lambda>t. (f (fst t), snd t)) xs) = map snd xs"
  by (simp add: comp_def)


section \<open>Facts about the probabilities of a payload\<close>

lemma rounded_probability:
  assumes "j < length d"
  shows "round5 (softmax d ! j) * 100000 \<in> \<int> \<and> 0 \<le> round5 (softmax d ! j) \<and>
         round5 (softmax d ! j) \<le> 1"
  using softmax_unit [OF assms] round5_unit [of "softmax d ! j"] round5_decimals by blast

text \<open>
  The causal classes round: every probability of a payload they return is a multiple
  of \<open>10^-5\<close> in \<open>[0, 1]\<close>.
\<close>

lemma causal_probabilities_rounded:
  assumes "LM_check_probabilities self in_text topk = Inr p"
    and ok: "argsort_ok (np_argsort self)"
  shows "(\<forall>i<length (real_topk p).
            snd (real_topk p ! i) * 100000 \<in> \<int> \<and> 0 \<le> snd (real_topk p ! i) \<and>
            snd (real_topk p ! i) \<le> 1) \<and>
         (\<forall>i<length (pred_topk p). \<forall>x\<in>set (map snd (pred_topk p ! i)).
            x * 100000 \<in> \<int> \<and> 0 \<le> x \<and> x \<le> 1)"
proof (intro conjI allI impI ballI)
  let ?ctx = "enc_encode self (lm_preprocess self in_text)"
  from LM_check_probabilities_Inr [OF assms(1)]
  obtain logits where
    l: "length (real_topk p) = length ?ctx - 1" "length (pred_topk p) = length ?ctx - 1"
    and e: "\<forall>i < length ?ctx - 1.
        ?ctx ! (i + 1) < length (logits ! i) \<and>
        snd (real_topk p ! i) = round5 (softmax (logits ! i) ! (?ctx ! (i + 1))) \<and>
        map snd (pred_topk p ! i) =
          map round5 (map (\<lambda>q. softmax (logits ! i) ! q)
                          (take topk (argsort_neg self (softmax (logits ! i)))))"
    by blast
  {
    fix i assume i: "i < length (real_topk p)"
    then have "?ctx ! (i + 1) < length (logits ! i)"
      "snd (real_topk p ! i) = round5 (softmax (logits ! i) ! (?ctx ! (i + 1)))"
      using e l by auto
    then show "snd (real_topk p ! i) * 100000 \<in> \<int>" "0 \<le> snd (real_topk p ! i)"
      "snd (real_topk p ! i) \<le> 1"
      using rounded_probability [of "?ctx ! (i + 1)" "logits ! i"] by auto
  }
  {
    fix i x assume i: "i < length (pred_topk p)" and x: "x \<in> set (map snd (pred_topk p ! i))"
    have "map snd (pred_topk p ! i) =
          map round5 (map (\<lambda>q. softmax (logits ! i) ! q)
                          (take topk (argsort_neg self (softmax (logits ! i)))))"
      using e l i by auto
    then obtain j where j: "j \<in> set (take topk (argsort_neg self (softmax (logits ! i))))"
      "x = round5 (softmax (logits ! i) ! j)"
      using x by auto
    have "j \<in> set (argsort_neg self (softmax (logits ! i)))" using j(1) by (rule in_set_takeD)
    then have "j < length (logits ! i)" by (simp add: argsort_neg_set [OF ok] softmax_length)
    then show "x * 100000 \<in> \<int>" "0 \<le> x" "x \<le> 1"
      using rounded_probability [of j "logits ! i"] j(2) by auto
  }
qed

lemma example_round5_third: "round5 (1 / 3) = 33333 / 100000"
  by (simp add: round5_def round_half_even_def)


section \<open>Facts about the ranked groups of a payload\<close>


text \<open>
  The rank entries of the groups, in order, against the rows of the forward passes and
  the targets of the groups, when every forward pass returns one row per target.
\<close>

lemma ranked_rows:
  assumes "list_all2 (\<lambda>b r. rank_batch self topk R b = Inr r) batches ranked"
    and "list_all2 (\<lambda>b out. bert_model self (fst b) = Inr out \<and> length out = length (snd b))
           batches outs"
  shows "length (concat outs) = length (concat (map snd batches)) \<and>
         list_all2 (\<lambda>rt e. where_first (argsort_neg self (softmax (fst rt ! (R + 1)))) (snd rt)
                             = Inr (fst e))
           (zip (concat outs) (concat (map snd batches))) (concat (map fst ranked))"
  using assms
proof (induction arbitrary: outs rule: list_all2_induct)
  case Nil
  then show ?case by simp
next
  case (Cons b bs r rs)
  obtain src tgt rt pt where e: "b = (src, tgt)" "r = (rt, pt)" by (cases b, cases r) auto
  from Cons.prems obtain out outs' where o: "outs = out # outs'"
    "bert_model self src = Inr out" "length out = length tgt"
    "list_all2 (\<lambda>b out. bert_model self (fst b) = Inr out \<and> length out = length (snd b)) bs outs'"
    by (auto simp: list_all2_Cons1 e)
  from rank_batch_Inr [of self topk R src tgt rt pt] Cons.hyps(1) e o(2)
  have h: "length rt = length out"
    "\<forall>i<length out.
        where_first (argsort_neg self (softmax (out ! i ! (R + 1)))) (tgt ! i) = Inr (fst (rt ! i))"
    by auto
  have hd: "list_all2 (\<lambda>rt e. where_first (argsort_neg self (softmax (fst rt ! (R + 1)))) (snd rt)
                             = Inr (fst e)) (zip out tgt) rt"
    using h o(3) by (intro list_all2_all_nthI) auto
  from Cons.IH [OF o(4)]
  have tl: "length (concat outs') = length (concat (map snd bs))"
    "list_all2 (\<lambda>rt e. where_first (argsort_neg self (softmax (fst rt ! (R + 1)))) (snd rt)
                             = Inr (fst e))
           (zip (concat outs') (concat (map snd bs))) (concat (map fst rs))"
    by blast+
  show ?case
    using hd tl o(3) by (simp add: o(1) e list_all2_appendI)
qed

text \<open>The top-k lists of the groups, in order, against the rows of the forward passes.\<close>

lemma ranked_lists:
  assumes "list_all2 (\<lambda>b r. rank_batch self topk R b = Inr r) batches ranked"
    and "list_all2 (\<lambda>b out. bert_model self (fst b) = Inr out) batches outs"
  shows "list_all2 (\<lambda>row l.
            l = zip (map (id_to_token self) (take topk (argsort_neg self (softmax (row ! (R + 1))))))
                    (map (\<lambda>q. softmax (row ! (R + 1)) ! q)
                         (take topk (argsort_neg self (softmax (row ! (R + 1)))))))
           (concat outs) (concat (map snd ranked))"
  using assms
proof (induction arbitrary: outs rule: list_all2_induct)
  case Nil
  then show ?case by simp
next
  case (Cons b bs r rs)
  obtain src tgt rt pt where e: "b = (src, tgt)" "r = (rt, pt)" by (cases b, cases r) auto
  from Cons.prems obtain out outs' where o: "outs = out # outs'"
    "bert_model self src = Inr out"
    "list_all2 (\<lambda>b out. bert_model self (fst b) = Inr out) bs outs'"
    by (auto simp: list_all2_Cons1 e)
  from rank_batch_Inr [of self topk R src tgt rt pt] Cons.hyps(1) e o(2)
  have h: "length pt = length out"
    "\<forall>i<length out.
        pt ! i = zip (map (id_to_token self) (take topk (argsort_neg self (softmax (out ! i ! (R + 1))))))
                     (map (\<lambda>q. softmax (out ! i ! (R + 1)) ! q)
                          (take topk (argsort_neg self (softmax (out ! i ! (R + 1))))))"
    by auto
  have hd: "list_all2 (\<lambda>row l.
            l = zip (map (id_to_token self) (take topk (argsort_neg self (softmax (row ! (R + 1))))))
                    (map (\<lambda>q. softmax (row ! (R + 1)) ! q)
                         (take topk (argsort_neg self (softmax (row ! (R + 1))))))) out pt"
    using h by (intro list_all2_all_nthI) auto
  show ?case
    using hd Cons.IH [OF o(3)] by (simp add: o(1) e list_all2_appendI)
qed

text \<open>
  What the masked pipeline ranks, position by position: when every forward pass returns
  one row per window, there are \<open>N - 1\<close> rank entries and \<open>N - 1\<close> top-k lists, and
  entry \<open>k\<close> comes from the scores read from row \<open>k\<close> of the forward passes (the rows
  of the groups in order) and from the token at position \<open>k + 1\<close>.
\<close>

lemma masked_positions:
  assumes q: "BERTLM_check_probabilities self in_text topk R batch_size = Inr q"
    and t: "tokenizer_tokenize self
              ([91, 67, 76, 83, 93, 32] @ bert_preprocess self in_text @ [32, 91, 83, 69, 80, 93])
            = toks"
    and b: "build_batches (map (token_to_id self) toks) (self_mask_tok self) (self_pad self)
              R batch_size = Inr batches"
    and o: "list_all2 (\<lambda>b out. bert_model self (fst b) = Inr out \<and> length out = length (fst b))
              batches outs"
  shows "length (concat outs) = length toks - 1 \<and>
         length (real_topk q) = length toks - 1 \<and>
         length (pred_topk q) = length toks - 1 \<and>
         (\<forall>k<length toks - 1.
            where_first (argsort_neg self (softmax (concat outs ! k ! (R + 1))))
              (token_to_id self (toks ! (k + 1))) = Inr (fst (real_topk q ! k)) \<and>
            map snd (pred_topk q ! k) =
              map (\<lambda>j. softmax (concat outs ! k ! (R + 1)) ! j)
                  (take topk (argsort_neg self (softmax (concat outs ! k ! (R + 1))))))"
proof -
  let ?y = "map (token_to_id self) toks"
  let ?n = "length toks - 1"
  from BERTLM_check_probabilities_Inr [OF q t] b
  obtain ranked where
    r: "mapM (rank_batch self topk R) batches = Inr ranked"
    and s: "real_topk q = concat (map fst ranked)"
      "pred_topk q = map (map (\<lambda>t. (BERTLM_postprocess (fst t), snd t))) (concat (map snd ranked))"
    by auto
  from build_batches_Inr [OF b]
  have c: "concat (map snd batches) = drop 1 ?y"
    and e: "\<forall>b\<in>set batches. length (fst b) = length (snd b)"
    by blast+
  have lo: "length batches = length outs" using o by (rule list_all2_lengthD)
  have o1: "list_all2 (\<lambda>b out. bert_model self (fst b) = Inr out \<and> length out = length (snd b))
              batches outs"
  proof (rule list_all2_all_nthI [OF lo])
    fix j assume j: "j < length batches"
    have "batches ! j \<in> set batches" using j by simp
    then show "bert_model self (fst (batches ! j)) = Inr (outs ! j) \<and>
               length (outs ! j) = length (snd (batches ! j))"
      using list_all2_nthD [OF o j] e by simp
  qed
  have o2: "list_all2 (\<lambda>b out. bert_model self (fst b) = Inr out) batches outs"
    using o by (rule list_all2_mono) simp
  note rr = ranked_rows [OF mapM_Inr_D [OF r] o1, unfolded c]
  note rl = ranked_lists [OF mapM_Inr_D [OF r] o2]
  have l0: "length (concat outs) = ?n" using rr by simp
  have l1: "length (real_topk q) = ?n"
    using list_all2_lengthD [OF rr [THEN conjunct2]] l0 by (simp add: s)
  have l2: "length (pred_topk q) = ?n"
    using list_all2_lengthD [OF rl] l0 by (simp add: s)
  have each: "where_first (argsort_neg self (softmax (concat outs ! k ! (R + 1))))
              (token_to_id self (toks ! (k + 1))) = Inr (fst (real_topk q ! k)) \<and>
            map snd (pred_topk q ! k) =
              map (\<lambda>j. softmax (concat outs ! k ! (R + 1)) ! j)
                  (take topk (argsort_neg self (softmax (concat outs ! k ! (R + 1)))))"
    if k: "k < ?n" for k
  proof -
    have kz: "k < length (zip (concat outs) (drop 1 ?y))" using k l0 by simp
    have z: "zip (concat outs) (drop 1 ?y) ! k = (concat outs ! k, token_to_id self (toks ! (k + 1)))"
      using k l0 by simp
    from list_all2_nthD [OF rr [THEN conjunct2] kz]
    have w: "where_first (argsort_neg self (softmax (concat outs ! k ! (R + 1))))
              (token_to_id self (toks ! (k + 1))) = Inr (fst (real_topk q ! k))"
      unfolding z s by simp
    have kc: "k < length (concat outs)" using k l0 by simp
    have kr: "k < length (concat (map snd ranked))" using kc list_all2_lengthD [OF rl] by simp
    from list_all2_nthD [OF rl kc]
    have p: "concat (map snd ranked) ! k =
        zip (map (id_to_token self) (take topk (argsort_neg self (softmax (concat outs ! k ! (R + 1))))))
            (map (\<lambda>j. softmax (concat outs ! k ! (R + 1)) ! j)
                 (take topk (argsort_neg self (softmax (concat outs ! k ! (R + 1))))))" .
    have "pred_topk q ! k = map (\<lambda>t. (BERTLM_postprocess (fst t), snd t)) (concat (map snd ranked) ! k)"
      unfolding s using kr by simp
    then have "map snd (pred_topk q ! k) = map snd (concat (map snd ranked) ! k)"
      by (simp add: map_snd_relabel)
    also have "\<dots> = map (\<lambda>j. softmax (concat outs ! k ! (R + 1)) ! j)
                  (take topk (argsort_neg self (softmax (concat outs ! k ! (R + 1)))))"
      unfolding p by (simp del: length_take)
    finally show ?thesis using w by blast
  qed
  show ?thesis using l0 l1 l2 each by blast
qed

text \<open>The pipelines on further inputs.\<close>

lemma example_lm_mega_ca:
  "LM_mega_check_probabilities example_lm [99, 97] 5 =
     Inr \<lparr>bpe_strings = [[99], [97]],
          real_topk = [(0, 7 / 10)],
          pred_topk = [[([97], 7 / 10), ([98], 1 / 5), ([99], 1 / 10)]]\<rparr>"
  by (simp add: LM_mega_check_probabilities_def example_lm_def Let_def nth_err_def upt_rec
      decoder_lookup_def example_lm_softmax [simplified] argsort_neg_def stable_argsort_def
      example_round5 LM_mega_postprocess_def startswith_def)

lemma example_lm_context_ca:
  "enc_encode example_lm (lm_preprocess example_lm [99, 97]) = [2, 0]"
  by (simp add: example_lm_def)

lemma example_lm_logits_ca:
  "lm_model example_lm [2, 0] = Inr [[ln 7, ln 2, ln 1], [ln 7, ln 2, ln 1]]"
  by (simp add: example_lm_def)

lemma example_lm_ok: "argsort_ok (np_argsort example_lm)"
  using stable_argsort_ok by (simp add: example_lm_def)

lemma example_bert_ok: "argsort_ok (np_argsort example_bert)"
  using stable_argsort_ok by (simp add: example_bert_def)

lemma example_bert_outs:
  "list_all2 (\<lambda>b out. bert_model example_bert (fst b) = Inr out \<and> length out = length (fst b))
     [([[0, 0, 0, 0, 0, 0, 0, 0, 0, 0, 0, 0, 0, 0, 0, 0, 0, 0, 0, 0, 1, 3, 0, 0, 0, 0, 0, 0, 0, 0, 0, 0, 0, 0, 0, 0, 0, 0, 0, 0, 0], [0, 0, 0, 0, 0, 0, 0, 0, 0, 0, 0, 0, 0, 0, 0, 0, 0, 0, 0, 1, 4, 0, 0, 0, 0, 0, 0, 0, 0, 0, 0, 0, 0, 0, 0, 0, 0, 0, 0, 0, 0]], [4, 2])]
     [map (map (\<lambda>t. [ln 1, ln 2, ln 3, ln 4, ln 5])) [[0, 0, 0, 0, 0, 0, 0, 0, 0, 0, 0, 0, 0, 0, 0, 0, 0, 0, 0, 0, 1, 3, 0, 0, 0, 0, 0, 0, 0, 0, 0, 0, 0, 0, 0, 0, 0, 0, 0, 0, 0], [0, 0, 0, 0, 0, 0, 0, 0, 0, 0, 0, 0, 0, 0, 0, 0, 0, 0, 0, 1, 4, 0, 0, 0, 0, 0, 0, 0, 0, 0, 0, 0, 0, 0, 0, 0, 0, 0, 0, 0, 0]]]"
  by (simp add: example_bert_def)










section \<open>The token postprocessor on plain tokens\<close>

text \<open>
  Claim C8. A raw token with none of the special prefixes leaves both flags of the
  byte-level postprocessor at their initial value \<open>False\<close>, and the postprocessor
  (of either causal class) returns it unchanged: no marker is added. In
  \<open>BERTLM.postprocess\<close> the leading-space flag starts at \<open>True\<close> and is \<open>False\<close> only
  for a token that carries the prefix \<open>##\<close>, so no token without a special prefix has
  both flags false there.
\<close>

theorem postprocess_plain_token_unchanged:
  "\<not> LM_special_prefix token \<Longrightarrow>
     LM_postprocess token = token \<and> LM_mega_postprocess token = token"
  by (simp add: LM_special_prefix_def LM_postprocess_def LM_mega_postprocess_def)

theorem postprocess_plain_token_unchanged_witness:
  "\<not> LM_special_prefix [97, 98, 99] \<and>
   LM_postprocess [97, 98, 99] = [97, 98, 99] \<and>
   LM_mega_postprocess [97, 98, 99] = [97, 98, 99]"
  using postprocess_plain_token_unchanged [of "[97, 98, 99]"]
  by (simp add: LM_special_prefix_def startswith_def)

section \<open>Width, mask offset and left padding of a context window\<close>

text \<open>
  Claim C4, as the code has it. Every window built by the loop (the loop only reaches
  a \<open>mask_index\<close> with \<open>mask_index + 1 < N\<close>) has width exactly \<open>2R + 1\<close>. The masked
  token is the one at position \<open>mask_index + 1\<close>; when it is not the last token and
  \<open>R \<ge> 1\<close>, the mask id sits at local offset \<open>R + 1\<close>, which is the offset
  \<open>max_context + 1\<close> that line 400 reads. For \<open>mask_index < R\<close> in a document of more
  than \<open>2R + 1\<close> tokens the window is \<open>R - mask_index\<close> pad ids followed by the first
  \<open>mask_index + R + 1\<close> tokens, so the left padding is \<open>R - mask_index\<close>, that is
  \<open>R + 1 - p\<close> for the masked position \<open>p = mask_index + 1\<close>.
\<close>

theorem window_width_and_mask_offset:
  assumes "mask_index + 1 < length y"
  shows "\<exists>w. window y mask_tok pad R mask_index = Inr w \<and> length w = 2 * R + 1 \<and>
           (mask_index + 2 < length y \<and> 1 \<le> R \<longrightarrow> w ! (R + 1) = mask_tok) \<and>
           (mask_index < R \<and> 2 * R + 1 < length y \<longrightarrow>
              w = replicate (R - mask_index) pad @
                  take (mask_index + R + 1) (y[mask_index + 1 := mask_tok]))"
proof -
  let ?k = "min (length y - 1) (mask_index + R + 1) - (mask_index - R)"
  let ?s = "take ?k (drop (mask_index - R) (y[mask_index + 1 := mask_tok]))"
  obtain l r
    where w: "window y mask_tok pad R mask_index = Inr (replicate l pad @ ?s @ replicate r pad)"
    and len: "l + ?k + r = 2 * R + 1"
    and l1: "mask_index \<le> R \<longrightarrow> l = R - mask_index"
    and l2: "R < mask_index \<longrightarrow> l = 0"
    using window_padded [OF assms, of mask_tok pad R] by blast
  have ls: "length ?s = ?k" using assms by simp
  have width: "length (replicate l pad @ ?s @ replicate r pad) = 2 * R + 1"
    using len ls by simp
  have mask: "(replicate l pad @ ?s @ replicate r pad) ! (R + 1) = mask_tok"
    if a: "mask_index + 2 < length y" "1 \<le> R"
  proof -
    have i: "l \<le> R + 1" "R + 1 - l < ?k" "mask_index - R + (R + 1 - l) = mask_index + 1"
      using l1 l2 a by arith+
    have "(replicate l pad @ ?s @ replicate r pad) ! (R + 1) = ?s ! (R + 1 - l)"
      using i ls by (simp add: nth_append del: length_take length_drop)
    also have "\<dots> = (y[mask_index + 1 := mask_tok]) ! (mask_index - R + (R + 1 - l))"
      using i(2) a(1) by (simp del: list_update.simps)
    also have "\<dots> = mask_tok" using assms by (simp only: i(3)) simp
    finally show ?thesis .
  qed
  have left: "replicate l pad @ ?s @ replicate r pad =
                replicate (R - mask_index) pad @
                take (mask_index + R + 1) (y[mask_index + 1 := mask_tok])"
    if a: "mask_index < R" "2 * R + 1 < length y"
  proof -
    have "l = R - mask_index" "?k = mask_index + R + 1" "r = 0" "mask_index - R = 0"
      using l1 a len by arith+
    then show ?thesis by simp
  qed
  show ?thesis using w width mask left by blast
qed

theorem window_width_and_mask_offset_witness:
  "window [10, 11, 12, 13, 14, 15] 99 0 2 1 = Inr [0, 10, 11, 99, 13] \<and>
   length [0, 10, 11, 99, 13 :: nat] = 2 * 2 + 1 \<and>
   [0, 10, 11, 99, 13] ! (2 + 1) = (99 :: nat) \<and>
   [0, 10, 11, 99, 13] =
     replicate (2 - 1) 0 @ take (1 + 2 + 1) ([10, 11, 12, 13, 14, 15][1 + 1 := 99 :: nat])"
proof -
  have h: "1 + 1 < length [10, 11, 12, 13, 14, 15 :: nat]" by simp
  have e: "window [10, 11, 12, 13, 14, 15] 99 0 2 1 = Inr [0, 10, 11, 99, 13]" by code_simp
  show ?thesis
    using window_width_and_mask_offset [OF h, of 99 0 2] unfolding e by simp
qed

text \<open>
  The claim as stated fails: with \<open>R = 2\<close>, a document of \<open>6 > 2R + 1\<close> tokens, mask
  id 99 and pad id 0, the window of the first target (\<open>mask_index = 0\<close>, the token at
  position \<open>p = 1\<close>) has the mask id at offset 3, not at offset \<open>R = 2\<close>, and starts
  with two pad ids, not with \<open>R - p = 1\<close>.
\<close>

theorem window_mask_offset_counterexample:
  "window [10, 11, 12, 13, 14, 15] 99 0 2 0 = Inr [0, 0, 10, 99, 12] \<and>
   [0, 0, 10, 99, 12] ! 2 \<noteq> (99 :: nat) \<and>
   take 2 [0, 0, 10, 99, 12] = replicate 2 (0 :: nat)"
  by code_simp

section \<open>The empty final group\<close>

text \<open>
  Claim C10. Let \<open>N \<ge> 1\<close> be the number of tokens (boundary markers included) and
  \<open>batch_size\<close> positive. When \<open>(N - 1) mod batch_size = 0\<close>, the last value of
  \<open>min_ix\<close> is \<open>N - 1\<close>, its group holds no window, and \<open>check_probabilities\<close> raises
  the \<open>RuntimeError\<close> of \<open>torch.cat\<close> on the empty list instead of returning a
  payload. For every other \<open>N\<close> each group holds at least one window.
\<close>

theorem empty_final_group:
  assumes "tokenizer_tokenize self
             ([91, 67, 76, 83, 93, 32] @ bert_preprocess self in_text @ [32, 91, 83, 69, 80, 93])
           = tokenized_text"
    and "0 < batch_size" and "1 \<le> length tokenized_text"
  shows "((length tokenized_text - 1) mod batch_size = 0 \<longrightarrow>
            last (range_step (length tokenized_text) batch_size) = length tokenized_text - 1 \<and>
            batch_indices (length tokenized_text) batch_size (length tokenized_text - 1) = [] \<and>
            BERTLM_check_probabilities self in_text topk max_context batch_size
              = Inl RuntimeError)
       \<and> ((length tokenized_text - 1) mod batch_size \<noteq> 0 \<longrightarrow>
            (\<forall>min_ix \<in> set (range_step (length tokenized_text) batch_size).
               batch_indices (length tokenized_text) batch_size min_ix \<noteq> []))"
proof (intro conjI impI ballI)
  let ?n = "length tokenized_text"
  have n: "0 < ?n" using assms(3) by (cases tokenized_text) simp_all
  {
    assume m: "(?n - 1) mod batch_size = 0"
    show "last (range_step ?n batch_size) = ?n - 1"
      using assms(2) n m by (rule range_step_last)
    show "batch_indices ?n batch_size (?n - 1) = []"
      by (simp add: batch_indices_upt [OF n])
    have "build_batches (map (token_to_id self) tokenized_text) (self_mask_tok self)
            (self_pad self) max_context batch_size = Inl RuntimeError"
      using assms(2) n m by (intro build_batches_fail) simp_all
    then show "BERTLM_check_probabilities self in_text topk max_context batch_size
                 = Inl RuntimeError"
      using assms(1) by (simp add: BERTLM_check_probabilities_def Let_def)
  }
  {
    fix min_ix
    assume m: "(?n - 1) mod batch_size \<noteq> 0"
      and "min_ix \<in> set (range_step ?n batch_size)"
    then have "min_ix < ?n" "min_ix mod batch_size = 0"
      using assms(2) by (auto simp: range_step_set)
    then have "min_ix < ?n - 1" using m by (cases "min_ix = ?n - 1") auto
    then show "batch_indices ?n batch_size min_ix \<noteq> []"
      using assms(2) by (simp add: batch_indices_upt [OF n]) arith
  }
qed

theorem empty_final_group_witness:
  "BERTLM_check_probabilities example_bert [119] 5 20 2 = Inl RuntimeError \<and>
   last (range_step 3 2) = 2 \<and> batch_indices 3 2 2 = [] \<and>
   range_step 3 20 = [0] \<and> batch_indices 3 20 0 \<noteq> []"
proof -
  let ?toks = "[[91, 67, 76, 83, 93], [119], [91, 83, 69, 80, 93]] :: ustring list"
  have l: "length ?toks = 3" by simp
  have t: "tokenizer_tokenize example_bert
             ([91, 67, 76, 83, 93, 32] @ bert_preprocess example_bert [119] @
              [32, 91, 83, 69, 80, 93])
           = ?toks"
    by (simp add: example_bert_def)
  have r: "range_step 3 20 = [0]" by code_simp
  show ?thesis
    using empty_final_group [OF t, of 2 5 20] empty_final_group [OF t, of 20 5 20]
    unfolding l r by simp
qed


section \<open>The two causal classes\<close>

text \<open>
  Claim C9. The class registered as \<open>aragpt2-mega\<close> and the one registered as
  \<open>aragpt2-base\<close> differ only in the module their constructor imports the model and
  tokenizer from: on the same loaded preprocessor, tokenizer and model, the same text
  and the same \<open>topk\<close>, the two \<open>check_probabilities\<close> return the same payload, or
  raise the same exception.
\<close>

theorem causal_variants_equal:
  "LM_mega_check_probabilities self in_text topk = LM_check_probabilities self in_text topk"
  unfolding LM_mega_check_probabilities_def LM_check_probabilities_def postprocess_eq ..


section \<open>Lengths of the three sequences of a payload\<close>

text \<open>
  Claim C1, as the code has it. In a payload returned by either causal class for a text
  of \<open>N\<close> tokens, \<open>bpe_strings\<close> has \<open>N\<close> entries and \<open>real_topk\<close> and \<open>pred_topk\<close>
  have \<open>N - 1\<close> each. In a payload returned by the masked pipeline, \<open>bpe_strings\<close>
  has one entry per token (boundary markers included), \<open>real_topk\<close> and \<open>pred_topk\<close>
  have equal length, and that length is \<open>N - 1\<close> when the forward pass returns one row
  per window of its input.
\<close>

theorem payload_lengths:
  "(LM_check_probabilities self in_text topk = Inr p \<longrightarrow>
      length (bpe_strings p) = length (enc_encode self (lm_preprocess self in_text)) \<and>
      length (real_topk p) = length (enc_encode self (lm_preprocess self in_text)) - 1 \<and>
      length (pred_topk p) = length (enc_encode self (lm_preprocess self in_text)) - 1) \<and>
   (LM_mega_check_probabilities self in_text topk = Inr p \<longrightarrow>
      length (bpe_strings p) = length (enc_encode self (lm_preprocess self in_text)) \<and>
      length (real_topk p) = length (enc_encode self (lm_preprocess self in_text)) - 1 \<and>
      length (pred_topk p) = length (enc_encode self (lm_preprocess self in_text)) - 1) \<and>
   (BERTLM_check_probabilities bself in_text topk max_context batch_size = Inr q \<longrightarrow>
      length (bpe_strings q) =
        length (tokenizer_tokenize bself
          ([91, 67, 76, 83, 93, 32] @ bert_preprocess bself in_text @ [32, 91, 83, 69, 80, 93])) \<and>
      length (real_topk q) = length (pred_topk q) \<and>
      ((\<forall>src out. bert_model bself src = Inr out \<longrightarrow> length out = length src) \<longrightarrow>
        length (real_topk q) =
          length (tokenizer_tokenize bself
            ([91, 67, 76, 83, 93, 32] @ bert_preprocess bself in_text @ [32, 91, 83, 69, 80, 93]))
          - 1))"
proof (intro conjI impI)
  let ?toks = "tokenizer_tokenize bself
          ([91, 67, 76, 83, 93, 32] @ bert_preprocess bself in_text @ [32, 91, 83, 69, 80, 93])"
  {
    assume "LM_check_probabilities self in_text topk = Inr p"
    from LM_check_probabilities_Inr [OF this]
    show "length (bpe_strings p) = length (enc_encode self (lm_preprocess self in_text))"
      "length (real_topk p) = length (enc_encode self (lm_preprocess self in_text)) - 1"
      "length (pred_topk p) = length (enc_encode self (lm_preprocess self in_text)) - 1"
      by blast+
  }
  {
    assume "LM_mega_check_probabilities self in_text topk = Inr p"
    then have "LM_check_probabilities self in_text topk = Inr p"
      by (simp add: LM_mega_check_probabilities_eq)
    from LM_check_probabilities_Inr [OF this]
    show "length (bpe_strings p) = length (enc_encode self (lm_preprocess self in_text))"
      "length (real_topk p) = length (enc_encode self (lm_preprocess self in_text)) - 1"
      "length (pred_topk p) = length (enc_encode self (lm_preprocess self in_text)) - 1"
      by blast+
  }
  {
    assume q: "BERTLM_check_probabilities bself in_text topk max_context batch_size = Inr q"
    from BERTLM_check_probabilities_Inr [OF q refl]
    obtain batches ranked where
      b: "build_batches (map (token_to_id bself) ?toks) (self_mask_tok bself) (self_pad bself)
            max_context batch_size = Inr batches"
      and r: "mapM (rank_batch bself topk max_context) batches = Inr ranked"
      and s: "bpe_strings q = map BERTLM_postprocess ?toks"
        "real_topk q = concat (map fst ranked)"
        "pred_topk q = map (map (\<lambda>t. (BERTLM_postprocess (fst t), snd t)))
                           (concat (map snd ranked))"
      by blast
    note rl = ranked_lengths [OF mapM_Inr_D [OF r]]
    show "length (bpe_strings q) = length ?toks" using s(1) by simp
    show "length (real_topk q) = length (pred_topk q)" using rl s by simp
    {
      assume c: "\<forall>src out. bert_model bself src = Inr out \<longrightarrow> length out = length src"
      from build_batches_Inr [OF b]
      have "concat (map snd batches) = drop 1 (map (token_to_id bself) ?toks)"
        "\<forall>b\<in>set batches. length (fst b) = length (snd b)"
        by blast+
      then show "length (real_topk q) = length ?toks - 1" using rl c s(2) by simp
    }
  }
qed

theorem payload_lengths_witness:
  "LM_check_probabilities example_lm [97, 98, 99] 2 = Inr example_lm_payload \<and>
   length (bpe_strings example_lm_payload) = length [0, 1, 2 :: nat] \<and>
   length (real_topk example_lm_payload) = length [0, 1, 2 :: nat] - 1 \<and>
   length (pred_topk example_lm_payload) = length [0, 1, 2 :: nat] - 1 \<and>
   BERTLM_check_probabilities example_bert [119] 5 20 20 = Inr example_bert_payload \<and>
   length (bpe_strings example_bert_payload) = 3 \<and>
   length (real_topk example_bert_payload) = length (pred_topk example_bert_payload) \<and>
   length (real_topk example_bert_payload) = 3 - 1"
proof -
  note a = example_lm_abc_payload
  note b = example_bert_word_payload
  have l: "length [[91, 67, 76, 83, 93], [119], [91, 83, 69, 80, 93 :: nat]] = 3" by simp
  from payload_lengths [where self = example_lm and in_text = "[97, 98, 99]" and topk = 2
      and p = example_lm_payload, THEN conjunct1, THEN mp, OF a]
  have c: "length (bpe_strings example_lm_payload) = length [0, 1, 2 :: nat] \<and>
   length (real_topk example_lm_payload) = length [0, 1, 2 :: nat] - 1 \<and>
   length (pred_topk example_lm_payload) = length [0, 1, 2 :: nat] - 1"
    unfolding example_lm_context .
  from payload_lengths [where bself = example_bert and in_text = "[119]" and topk = 5
      and max_context = 20 and batch_size = 20 and q = example_bert_payload,
      THEN conjunct2, THEN conjunct2, THEN mp, OF b]
  have d: "length (bpe_strings example_bert_payload) = 3 \<and>
   length (real_topk example_bert_payload) = length (pred_topk example_bert_payload) \<and>
   length (real_topk example_bert_payload) = 3 - 1"
    unfolding example_tokens_word l using example_bert_shape by blast
  show ?thesis using a b c d by blast
qed

text \<open>
  The claim as stated fails: on the three tokens \<open>a, b, c\<close> the causal pipeline returns
  three token surfaces and two rank entries.
\<close>

theorem payload_lengths_counterexample:
  "LM_check_probabilities example_lm [97, 98, 99] 2 =
     Inr \<lparr>bpe_strings = [[97], [98], [99]],
          real_topk = [(1, 1 / 5), (2, 1 / 10)],
          pred_topk = [[([97], 7 / 10), ([98], 1 / 5)], [([97], 7 / 10), ([98], 1 / 5)]]\<rparr> \<and>
   length [[97], [98], [99 :: nat]] \<noteq> length [(1 :: nat, 1 / 5 :: real), (2, 1 / 10)]"
  using example_lm_abc by simp


section \<open>The positions the masked pipeline ranks\<close>

text \<open>
  Claim C2, as the code has it. The loop masks position \<open>mask_index + 1\<close> for
  \<open>mask_index\<close> from 0 to \<open>N - 2\<close>: the ground truths of the groups, in order, are the
  tokens at positions 1 to \<open>N - 1\<close>, the end marker included and only the start marker
  left out. When the forward pass returns one row per window, a returned payload has
  \<open>N - 1\<close> rank entries; for three tokens that is two.
\<close>

theorem masked_rank_entries:
  assumes "BERTLM_check_probabilities self in_text topk max_context batch_size = Inr p"
    and "tokenizer_tokenize self
           ([91, 67, 76, 83, 93, 32] @ bert_preprocess self in_text @ [32, 91, 83, 69, 80, 93])
         = tokenized_text"
    and "\<forall>src out. bert_model self src = Inr out \<longrightarrow> length out = length src"
  shows "length (real_topk p) = length tokenized_text - 1 \<and>
         (\<exists>batches.
            build_batches (map (token_to_id self) tokenized_text) (self_mask_tok self)
              (self_pad self) max_context batch_size = Inr batches \<and>
            concat (map snd batches) = drop 1 (map (token_to_id self) tokenized_text))"
proof -
  from BERTLM_check_probabilities_Inr [OF assms(1,2)]
  obtain batches ranked where
    b: "build_batches (map (token_to_id self) tokenized_text) (self_mask_tok self)
          (self_pad self) max_context batch_size = Inr batches"
    and r: "mapM (rank_batch self topk max_context) batches = Inr ranked"
    and s: "real_topk p = concat (map fst ranked)"
    by blast
  from build_batches_Inr [OF b]
  have c: "concat (map snd batches) = drop 1 (map (token_to_id self) tokenized_text)"
    and e: "\<forall>b\<in>set batches. length (fst b) = length (snd b)"
    by blast+
  have "length (real_topk p) = length tokenized_text - 1"
    using ranked_lengths [OF mapM_Inr_D [OF r]] assms(3) e c s by simp
  then show ?thesis using b c by blast
qed

theorem masked_rank_entries_witness:
  "BERTLM_check_probabilities example_bert [119] 5 20 20 = Inr example_bert_payload \<and>
   length (real_topk example_bert_payload) = 3 - 1 \<and>
   build_batches [1, 4, 2] 3 0 20 20 = Inr [([[0, 0, 0, 0, 0, 0, 0, 0, 0, 0, 0, 0, 0, 0, 0, 0, 0, 0, 0, 0, 1, 3, 0, 0, 0, 0, 0, 0, 0, 0, 0, 0, 0, 0, 0, 0, 0, 0, 0, 0, 0], [0, 0, 0, 0, 0, 0, 0, 0, 0, 0, 0, 0, 0, 0, 0, 0, 0, 0, 0, 1, 4, 0, 0, 0, 0, 0, 0, 0, 0, 0, 0, 0, 0, 0, 0, 0, 0, 0, 0, 0, 0]], [4, 2])] \<and>
   concat (map snd [([[0, 0, 0, 0, 0, 0, 0, 0, 0, 0, 0, 0, 0, 0, 0, 0, 0, 0, 0, 0, 1, 3, 0, 0, 0, 0, 0, 0, 0, 0, 0, 0, 0, 0, 0, 0, 0, 0, 0, 0, 0], [0, 0, 0, 0, 0, 0, 0, 0, 0, 0, 0, 0, 0, 0, 0, 0, 0, 0, 0, 1, 4, 0, 0, 0, 0, 0, 0, 0, 0, 0, 0, 0, 0, 0, 0, 0, 0, 0, 0, 0, 0]], [4, 2])]) = drop 1 [1, 4, 2]"
proof -
  have l: "length [[91, 67, 76, 83, 93], [119], [91, 83, 69, 80, 93 :: nat]] = 3" by simp
  from masked_rank_entries [OF example_bert_word_payload example_tokens_word example_bert_shape]
  have "length (real_topk example_bert_payload) = 3 - 1"
    unfolding l by blast
  then show ?thesis
    using example_bert_word_payload example_batches_word by simp
qed

text \<open>
  The claim as stated fails: with \<open>R = 20\<close>, \<open>K = 5\<close> and the default batch size, the
  three tokens \<open>[CLS]\<close>, \<open>w\<close>, \<open>[SEP]\<close> give two rank entries, the second one for
  \<open>[SEP]\<close> (id 2, ranked third with probability \<open>1/5\<close>).
\<close>

theorem masked_rank_entries_counterexample:
  "BERTLM_check_probabilities example_bert [119] 5 20 20 =
     Inr \<lparr>bpe_strings = [[288, 91, 67, 76, 83, 93], [288, 119], [266, 288, 91, 83, 69, 80, 93]],
          real_topk = [(0, 1 / 3), (2, 1 / 5)],
          pred_topk = [[([288, 119], 1 / 3), ([288, 91, 77, 65, 83, 75, 93], 4 / 15),
            ([266, 288, 91, 83, 69, 80, 93], 1 / 5), ([288, 91, 67, 76, 83, 93], 2 / 15),
            ([288, 91, 80, 65, 68, 93], 1 / 15)], [([288, 119], 1 / 3), ([288, 91, 77, 65, 83, 75, 93], 4 / 15),
            ([266, 288, 91, 83, 69, 80, 93], 1 / 5), ([288, 91, 67, 76, 83, 93], 2 / 15),
            ([288, 91, 80, 65, 68, 93], 1 / 15)]]\<rparr> \<and>
   length [(0 :: nat, 1 / 3 :: real), (2, 1 / 5)] \<noteq> 1"
  using example_bert_word by simp


section \<open>Empty input\<close>

text \<open>
  Claim C3, as the code has it. Neither pipeline checks for an empty token sequence,
  and no exception of the code is an empty-input error. When the causal tokenizer
  yields no token, the forward pass is called on the empty sequence: its exception is
  the result, and otherwise the payload with three empty sequences is. When the masked
  tokenizer yields exactly two tokens (the boundary markers) and \<open>batch_size \<ge> 2\<close>,
  one window of width \<open>2R + 1\<close> is built, for the second token, and the call returns
  what ranking that one window gives: its exception, or a payload with two token
  surfaces and the rank entries of that group.
\<close>

theorem no_empty_input_check:
  "(enc_encode self (lm_preprocess self in_text) = [] \<longrightarrow>
      LM_check_probabilities self in_text topk =
        (case lm_model self [] of
           Inl e \<Rightarrow> Inl e
         | Inr logits \<Rightarrow> Inr \<lparr>bpe_strings = [], real_topk = [], pred_topk = []\<rparr>) \<and>
      LM_mega_check_probabilities self in_text topk =
        (case lm_model self [] of
           Inl e \<Rightarrow> Inl e
         | Inr logits \<Rightarrow> Inr \<lparr>bpe_strings = [], real_topk = [], pred_topk = []\<rparr>)) \<and>
   (tokenizer_tokenize bself
      ([91, 67, 76, 83, 93, 32] @ bert_preprocess bself in_text @ [32, 91, 83, 69, 80, 93])
      = [a, b] \<and> 2 \<le> batch_size \<longrightarrow>
    (\<exists>w. window [token_to_id bself a, token_to_id bself b] (self_mask_tok bself)
            (self_pad bself) max_context 0 = Inr w \<and>
          length w = 2 * max_context + 1 \<and>
          BERTLM_check_probabilities bself in_text topk max_context batch_size =
            (case rank_batch bself topk max_context ([w], [token_to_id bself b]) of
               Inl e \<Rightarrow> Inl e
             | Inr r \<Rightarrow>
                 Inr \<lparr>bpe_strings = [BERTLM_postprocess a, BERTLM_postprocess b],
                      real_topk = fst r,
                      pred_topk = map (map (\<lambda>t. (BERTLM_postprocess (fst t), snd t)))
                                      (snd r)\<rparr>)))"
proof (intro conjI impI)
  {
    assume e: "enc_encode self (lm_preprocess self in_text) = []"
    show c: "LM_check_probabilities self in_text topk =
        (case lm_model self [] of
           Inl e \<Rightarrow> Inl e
         | Inr logits \<Rightarrow> Inr \<lparr>bpe_strings = [], real_topk = [], pred_topk = []\<rparr>)"
      by (simp add: LM_check_probabilities_def e Let_def split: sum.splits)
    show "LM_mega_check_probabilities self in_text topk =
        (case lm_model self [] of
           Inl e \<Rightarrow> Inl e
         | Inr logits \<Rightarrow> Inr \<lparr>bpe_strings = [], real_topk = [], pred_topk = []\<rparr>)"
      unfolding LM_mega_check_probabilities_eq by (rule c)
  }
  {
    assume h: "tokenizer_tokenize bself
      ([91, 67, 76, 83, 93, 32] @ bert_preprocess bself in_text @ [32, 91, 83, 69, 80, 93])
      = [a, b] \<and> 2 \<le> batch_size"
    from build_batches_two_tokens [of batch_size "token_to_id bself a" "token_to_id bself b"
        "self_mask_tok bself" "self_pad bself" max_context] h
    obtain w where w: "window [token_to_id bself a, token_to_id bself b] (self_mask_tok bself)
            (self_pad bself) max_context 0 = Inr w" "length w = 2 * max_context + 1"
      "build_batches [token_to_id bself a, token_to_id bself b] (self_mask_tok bself)
            (self_pad bself) max_context batch_size = Inr [([w], [token_to_id bself b])]"
      by blast
    have "BERTLM_check_probabilities bself in_text topk max_context batch_size =
            (case rank_batch bself topk max_context ([w], [token_to_id bself b]) of
               Inl e \<Rightarrow> Inl e
             | Inr r \<Rightarrow>
                 Inr \<lparr>bpe_strings = [BERTLM_postprocess a, BERTLM_postprocess b],
                      real_topk = fst r,
                      pred_topk = map (map (\<lambda>t. (BERTLM_postprocess (fst t), snd t)))
                                      (snd r)\<rparr>)"
      using h w(3) by (simp add: BERTLM_check_probabilities_def Let_def split: sum.splits)
    then show "\<exists>w. window [token_to_id bself a, token_to_id bself b] (self_mask_tok bself)
            (self_pad bself) max_context 0 = Inr w \<and>
          length w = 2 * max_context + 1 \<and>
          BERTLM_check_probabilities bself in_text topk max_context batch_size =
            (case rank_batch bself topk max_context ([w], [token_to_id bself b]) of
               Inl e \<Rightarrow> Inl e
             | Inr r \<Rightarrow>
                 Inr \<lparr>bpe_strings = [BERTLM_postprocess a, BERTLM_postprocess b],
                      real_topk = fst r,
                      pred_topk = map (map (\<lambda>t. (BERTLM_postprocess (fst t), snd t)))
                                      (snd r)\<rparr>)"
      using w(1,2) by blast
  }
qed

theorem no_empty_input_check_witness:
  "enc_encode example_lm (lm_preprocess example_lm []) = [] \<and>
   LM_check_probabilities example_lm [] 2 =
     Inr \<lparr>bpe_strings = [], real_topk = [], pred_topk = []\<rparr> \<and>
   tokenizer_tokenize example_bert
     ([91, 67, 76, 83, 93, 32] @ bert_preprocess example_bert [] @ [32, 91, 83, 69, 80, 93])
     = [[91, 67, 76, 83, 93], [91, 83, 69, 80, 93]] \<and>
   (2 :: nat) \<le> 20 \<and>
   BERTLM_check_probabilities example_bert [] 5 20 20 =
     Inr \<lparr>bpe_strings = [[288, 91, 67, 76, 83, 93], [266, 288, 91, 83, 69, 80, 93]],
          real_topk = [(2, 1 / 5)],
          pred_topk = [[([288, 119], 1 / 3), ([288, 91, 77, 65, 83, 75, 93], 4 / 15),
            ([266, 288, 91, 83, 69, 80, 93], 1 / 5), ([288, 91, 67, 76, 83, 93], 2 / 15),
            ([288, 91, 80, 65, 68, 93], 1 / 15)]]\<rparr>"
proof -
  have m: "lm_model example_lm [] = Inr []" by (simp add: example_lm_def)
  from no_empty_input_check [where self = example_lm and in_text = "[]" and topk = 2,
      THEN conjunct1, THEN mp, OF example_lm_encode_empty, THEN conjunct1]
  have c: "LM_check_probabilities example_lm [] 2 =
     Inr \<lparr>bpe_strings = [], real_topk = [], pred_topk = []\<rparr>"
    unfolding m by simp
  have h: "tokenizer_tokenize example_bert
     ([91, 67, 76, 83, 93, 32] @ bert_preprocess example_bert [] @ [32, 91, 83, 69, 80, 93])
     = [[91, 67, 76, 83, 93], [91, 83, 69, 80, 93]] \<and> (2 :: nat) \<le> 20"
    using example_tokens_empty by simp
  from no_empty_input_check [where bself = example_bert and in_text = "[]" and topk = 5
      and max_context = 20 and batch_size = 20, THEN conjunct2, THEN mp, OF h]
  obtain w where w: "window [token_to_id example_bert [91, 67, 76, 83, 93],
        token_to_id example_bert [91, 83, 69, 80, 93]] (self_mask_tok example_bert)
        (self_pad example_bert) 20 0 = Inr w"
    and r: "BERTLM_check_probabilities example_bert [] 5 20 20 =
            (case rank_batch example_bert 5 20 ([w], [token_to_id example_bert [91, 83, 69, 80, 93]]) of
               Inl e \<Rightarrow> Inl e
             | Inr r \<Rightarrow>
                 Inr \<lparr>bpe_strings = [BERTLM_postprocess [91, 67, 76, 83, 93],
                                     BERTLM_postprocess [91, 83, 69, 80, 93]],
                      real_topk = fst r,
                      pred_topk = map (map (\<lambda>t. (BERTLM_postprocess (fst t), snd t)))
                                      (snd r)\<rparr>)"
    by blast
  have ids: "token_to_id example_bert [91, 67, 76, 83, 93] = 1"
    "token_to_id example_bert [91, 83, 69, 80, 93] = 2"
    "self_mask_tok example_bert = 3" "self_pad example_bert = 0"
    by (simp_all add: example_bert_def)
  have "w = [0, 0, 0, 0, 0, 0, 0, 0, 0, 0, 0, 0, 0, 0, 0, 0, 0, 0, 0, 0, 1, 0, 0, 0, 0, 0, 0, 0, 0, 0, 0, 0, 0, 0, 0, 0, 0, 0, 0, 0, 0]"
    using w unfolding ids example_window_empty by simp
  then have "BERTLM_check_probabilities example_bert [] 5 20 20 =
     Inr \<lparr>bpe_strings = [[288, 91, 67, 76, 83, 93], [266, 288, 91, 83, 69, 80, 93]],
          real_topk = [(2, 1 / 5)],
          pred_topk = [[([288, 119], 1 / 3), ([288, 91, 77, 65, 83, 75, 93], 4 / 15),
            ([266, 288, 91, 83, 69, 80, 93], 1 / 5), ([288, 91, 67, 76, 83, 93], 2 / 15),
            ([288, 91, 80, 65, 68, 93], 1 / 15)]]\<rparr>"
    using r unfolding ids
    by (simp only: example_rank_empty sum.case) (simp add: BERTLM_postprocess_def startswith_def)
  then show ?thesis using c h example_lm_encode_empty by blast
qed

text \<open>
  The claim as stated fails: on the empty string the masked pipeline (with the default
  \<open>max_context\<close> and \<open>batch_size\<close>) returns a payload, with one rank entry for
  \<open>[SEP]\<close>.
\<close>

theorem no_empty_input_check_counterexample:
  "BERTLM_check_probabilities example_bert [] 5 20 20 =
     Inr \<lparr>bpe_strings = [[288, 91, 67, 76, 83, 93], [266, 288, 91, 83, 69, 80, 93]],
          real_topk = [(2, 1 / 5)],
          pred_topk = [[([288, 119], 1 / 3), ([288, 91, 77, 65, 83, 75, 93], 4 / 15),
            ([266, 288, 91, 83, 69, 80, 93], 1 / 5), ([288, 91, 67, 76, 83, 93], 2 / 15),
            ([288, 91, 80, 65, 68, 93], 1 / 15)]]\<rparr>"
  by (rule example_bert_empty)


section \<open>The rank of the ground-truth token\<close>





section \<open>The top-k alternatives\<close>

text \<open>
  Claim C7. For any \<open>argsort\<close> that returns a sorting permutation: a payload of
  either causal class over \<open>N\<close> tokens has \<open>N - 1\<close> lists of alternatives, one for
  each predicted position, and the list of position \<open>i\<close> has \<open>min(K, V)\<close> entries,
  \<open>V\<close> being the length of the score vector at that position, with probabilities that
  never increase along the list. A ranked group of the masked pipeline has one list per
  row of the forward pass, and list \<open>k\<close> has \<open>min(K, V)\<close> entries in non-increasing
  order of probability, \<open>V\<close> being the length of the score vector read from row \<open>k\<close>.
  A payload of the masked pipeline over \<open>N\<close> tokens, every forward pass returning one row
  per window, has \<open>N - 1\<close> lists, and list \<open>k\<close> has \<open>min(K, V)\<close> entries in
  non-increasing order of probability, \<open>V\<close> being the length of the score vector read
  from row \<open>k\<close> of the forward passes.
\<close>

theorem topk_sorted_and_length:
  "(argsort_ok (np_argsort self) \<and>
    (LM_check_probabilities self in_text topk = Inr p \<or>
     LM_mega_check_probabilities self in_text topk = Inr p) \<and>
    enc_encode self (lm_preprocess self in_text) = context \<and>
    lm_model self context = Inr logits \<longrightarrow>
      length (pred_topk p) = length context - 1 \<and>
      (\<forall>i<length context - 1.
         length (pred_topk p ! i) = min topk (length (logits ! i)) \<and>
         sorted_wrt (\<ge>) (map snd (pred_topk p ! i)))) \<and>
   (argsort_ok (np_argsort bself) \<and>
    rank_batch bself topk max_context (src, tgt) = Inr (rt, pt) \<and>
    bert_model bself src = Inr out \<longrightarrow>
      length pt = length out \<and>
      (\<forall>k<length out.
         length (pt ! k) = min topk (length (out ! k ! (max_context + 1))) \<and>
         sorted_wrt (\<ge>) (map snd (pt ! k)))) \<and>
   (argsort_ok (np_argsort bself) \<and>
    BERTLM_check_probabilities bself in_text topk max_context batch_size = Inr q \<and>
    tokenizer_tokenize bself
      ([91, 67, 76, 83, 93, 32] @ bert_preprocess bself in_text @ [32, 91, 83, 69, 80, 93])
      = toks \<and>
    build_batches (map (token_to_id bself) toks) (self_mask_tok bself) (self_pad bself)
      max_context batch_size = Inr batches \<and>
    list_all2 (\<lambda>b out. bert_model bself (fst b) = Inr out \<and> length out = length (fst b))
      batches outs \<longrightarrow>
      length (pred_topk q) = length toks - 1 \<and>
      (\<forall>k<length toks - 1.
         length (pred_topk q ! k) = min topk (length (concat outs ! k ! (max_context + 1))) \<and>
         sorted_wrt (\<ge>) (map snd (pred_topk q ! k))))"
proof (intro conjI impI allI)
  {
    assume h: "argsort_ok (np_argsort self) \<and>
      (LM_check_probabilities self in_text topk = Inr p \<or>
       LM_mega_check_probabilities self in_text topk = Inr p) \<and>
      enc_encode self (lm_preprocess self in_text) = context \<and>
      lm_model self context = Inr logits"
    then have ok: "argsort_ok (np_argsort self)"
      and c: "LM_check_probabilities self in_text topk = Inr p"
      and x: "enc_encode self (lm_preprocess self in_text) = context"
      and m: "lm_model self context = Inr logits"
      by (auto simp: LM_mega_check_probabilities_eq)
    from LM_check_probabilities_Inr [OF c, unfolded x m]
    have l: "length (pred_topk p) = length context - 1"
      and e: "\<forall>i<length context - 1.
          map snd (pred_topk p ! i) =
            map round5 (map (\<lambda>q. softmax (logits ! i) ! q)
                            (take topk (argsort_neg self (softmax (logits ! i)))))"
      by auto
    show "length (pred_topk p) = length context - 1" by (rule l)
    {
      fix i assume "i < length context - 1"
      then have s: "map snd (pred_topk p ! i) =
            map round5 (map (\<lambda>q. softmax (logits ! i) ! q)
                            (take topk (argsort_neg self (softmax (logits ! i)))))"
        using e by blast
      have "length (pred_topk p ! i) = length (map snd (pred_topk p ! i))" by simp
      also have "\<dots> = min topk (length (logits ! i))"
        unfolding s by (simp add: argsort_neg_length [OF ok] softmax_length min.commute)
      finally show "length (pred_topk p ! i) = min topk (length (logits ! i))" .
      show "sorted_wrt (\<ge>) (map snd (pred_topk p ! i))"
        unfolding s by (rule topk_round_desc [OF ok])
    }
  }
  {
    assume h: "argsort_ok (np_argsort bself) \<and>
      rank_batch bself topk max_context (src, tgt) = Inr (rt, pt) \<and>
      bert_model bself src = Inr out"
    then have ok: "argsort_ok (np_argsort bself)"
      and r: "rank_batch bself topk max_context (src, tgt) = Inr (rt, pt)"
      and m: "bert_model bself src = Inr out"
      by blast+
    from rank_batch_Inr [OF r, unfolded m]
    have l: "length pt = length out"
      and e: "\<forall>i<length out.
          pt ! i = zip (map (id_to_token bself)
                          (take topk (argsort_neg bself (softmax (out ! i ! (max_context + 1))))))
                       (map (\<lambda>q. softmax (out ! i ! (max_context + 1)) ! q)
                            (take topk (argsort_neg bself (softmax (out ! i ! (max_context + 1))))))"
      by auto
    show "length pt = length out" by (rule l)
    {
      fix k assume "k < length out"
      let ?d = "softmax (out ! k ! (max_context + 1))"
      from \<open>k < length out\<close>
      have s: "pt ! k = zip (map (id_to_token bself) (take topk (argsort_neg bself ?d)))
                            (map (\<lambda>q. ?d ! q) (take topk (argsort_neg bself ?d)))"
        using e by blast
      show "length (pt ! k) = min topk (length (out ! k ! (max_context + 1)))"
        unfolding s by (simp add: argsort_neg_length [OF ok] softmax_length min.commute)
      have "map snd (pt ! k) = map (\<lambda>q. ?d ! q) (take topk (argsort_neg bself ?d))"
        unfolding s by (simp del: length_take)
      then show "sorted_wrt (\<ge>) (map snd (pt ! k))"
        using topk_desc [OF ok, of ?d topk] by simp
    }
  }
  {
    assume h: "argsort_ok (np_argsort bself) \<and>
      BERTLM_check_probabilities bself in_text topk max_context batch_size = Inr q \<and>
      tokenizer_tokenize bself
        ([91, 67, 76, 83, 93, 32] @ bert_preprocess bself in_text @ [32, 91, 83, 69, 80, 93])
        = toks \<and>
      build_batches (map (token_to_id bself) toks) (self_mask_tok bself) (self_pad bself)
        max_context batch_size = Inr batches \<and>
      list_all2 (\<lambda>b out. bert_model bself (fst b) = Inr out \<and> length out = length (fst b))
        batches outs"
    then have ok: "argsort_ok (np_argsort bself)"
      and q: "BERTLM_check_probabilities bself in_text topk max_context batch_size = Inr q"
      and t: "tokenizer_tokenize bself
        ([91, 67, 76, 83, 93, 32] @ bert_preprocess bself in_text @ [32, 91, 83, 69, 80, 93])
        = toks"
      and b: "build_batches (map (token_to_id bself) toks) (self_mask_tok bself) (self_pad bself)
        max_context batch_size = Inr batches"
      and o: "list_all2 (\<lambda>b out. bert_model bself (fst b) = Inr out \<and> length out = length (fst b))
        batches outs"
      by blast+
    from masked_positions [OF q t b o]
    have l: "length (pred_topk q) = length toks - 1"
      and e: "\<forall>k<length toks - 1.
            map snd (pred_topk q ! k) =
              map (\<lambda>j. softmax (concat outs ! k ! (max_context + 1)) ! j)
                  (take topk (argsort_neg bself (softmax (concat outs ! k ! (max_context + 1)))))"
      by blast+
    show "length (pred_topk q) = length toks - 1" by (rule l)
    {
      fix k assume "k < length toks - 1"
      let ?d = "softmax (concat outs ! k ! (max_context + 1))"
      from \<open>k < length toks - 1\<close>
      have s: "map snd (pred_topk q ! k) = map (\<lambda>j. ?d ! j) (take topk (argsort_neg bself ?d))"
        using e by blast
      have "length (pred_topk q ! k) = length (map snd (pred_topk q ! k))" by simp
      also have "\<dots> = min topk (length (concat outs ! k ! (max_context + 1)))"
        unfolding s by (simp add: argsort_neg_length [OF ok] softmax_length min.commute)
      finally show "length (pred_topk q ! k) = min topk (length (concat outs ! k ! (max_context + 1)))" .
      show "sorted_wrt (\<ge>) (map snd (pred_topk q ! k))"
        unfolding s by (rule topk_desc [OF ok])
    }
  }
qed

theorem topk_sorted_and_length_witness:
  "argsort_ok (np_argsort example_lm) \<and>
   LM_check_probabilities example_lm [97, 98, 99] 2 = Inr example_lm_payload \<and>
   enc_encode example_lm (lm_preprocess example_lm [97, 98, 99]) = [0, 1, 2] \<and>
   lm_model example_lm [0, 1, 2] =
     Inr [[ln 7, ln 2, ln 1], [ln 7, ln 2, ln 1], [ln 7, ln 2, ln 1]] \<and>
   pred_topk example_lm_payload =
     [[([97], 7 / 10), ([98], 1 / 5)], [([97], 7 / 10), ([98], 1 / 5)]] \<and>
   length (pred_topk example_lm_payload) = 3 - 1 \<and>
   length (pred_topk example_lm_payload ! 0) = min 2 3 \<and>
   sorted_wrt (\<ge>) (map snd (pred_topk example_lm_payload ! 0)) \<and>
   length (pred_topk example_lm_payload ! 1) = min 2 3 \<and>
   sorted_wrt (\<ge>) (map snd (pred_topk example_lm_payload ! 1)) \<and>
   LM_mega_check_probabilities example_lm [99, 97] 5 =
     Inr \<lparr>bpe_strings = [[99], [97]],
          real_topk = [(0, 7 / 10)],
          pred_topk = [[([97], 7 / 10), ([98], 1 / 5), ([99], 1 / 10)]]\<rparr> \<and>
   enc_encode example_lm (lm_preprocess example_lm [99, 97]) = [2, 0] \<and>
   lm_model example_lm [2, 0] = Inr [[ln 7, ln 2, ln 1], [ln 7, ln 2, ln 1]] \<and>
   length [[([97], 7 / 10), ([98], 1 / 5), ([99 :: nat], 1 / 10 :: real)]] = 2 - 1 \<and>
   length [([97], 7 / 10), ([98], 1 / 5), ([99 :: nat], 1 / 10 :: real)] = min 5 3 \<and>
   sorted_wrt (\<ge>) (map snd [([97], 7 / 10), ([98], 1 / 5), ([99 :: nat], 1 / 10 :: real)]) \<and>
   argsort_ok (np_argsort example_bert) \<and>
   rank_batch example_bert 5 20 ([[0, 0, 0, 0, 0, 0, 0, 0, 0, 0, 0, 0, 0, 0, 0, 0, 0, 0, 0, 0, 1, 0, 0, 0, 0, 0, 0, 0, 0, 0, 0, 0, 0, 0, 0, 0, 0, 0, 0, 0, 0]], [2]) = Inr ([(2, 1 / 5)], [[([119], 1 / 3), ([91, 77, 65, 83, 75, 93], 4 / 15),
            ([91, 83, 69, 80, 93], 1 / 5), ([91, 67, 76, 83, 93], 2 / 15),
            ([91, 80, 65, 68, 93], 1 / 15)]]) \<and>
   bert_model example_bert [[0, 0, 0, 0, 0, 0, 0, 0, 0, 0, 0, 0, 0, 0, 0, 0, 0, 0, 0, 0, 1, 0, 0, 0, 0, 0, 0, 0, 0, 0, 0, 0, 0, 0, 0, 0, 0, 0, 0, 0, 0]] =
     Inr (map (map (\<lambda>t. [ln 1, ln 2, ln 3, ln 4, ln 5])) [[0, 0, 0, 0, 0, 0, 0, 0, 0, 0, 0, 0, 0, 0, 0, 0, 0, 0, 0, 0, 1, 0, 0, 0, 0, 0, 0, 0, 0, 0, 0, 0, 0, 0, 0, 0, 0, 0, 0, 0, 0]]) \<and>
   length ([([119], 1 / 3), ([91, 77, 65, 83, 75, 93], 4 / 15),
            ([91, 83, 69, 80, 93], 1 / 5), ([91, 67, 76, 83, 93], 2 / 15),
            ([91, 80, 65, 68, 93], 1 / 15)] :: (ustring \<times> real) list) = min 5 5 \<and>
   sorted_wrt (\<ge>) (map snd ([([119], 1 / 3), ([91, 77, 65, 83, 75, 93], 4 / 15),
            ([91, 83, 69, 80, 93], 1 / 5), ([91, 67, 76, 83, 93], 2 / 15),
            ([91, 80, 65, 68, 93], 1 / 15)] :: (ustring \<times> real) list)) \<and>
   BERTLM_check_probabilities example_bert [119] 5 20 20 = Inr example_bert_payload \<and>
   tokenizer_tokenize example_bert
     ([91, 67, 76, 83, 93, 32] @ bert_preprocess example_bert [119] @ [32, 91, 83, 69, 80, 93])
     = [[91, 67, 76, 83, 93], [119], [91, 83, 69, 80, 93]] \<and>
   length (pred_topk example_bert_payload) = 3 - 1 \<and>
   length (pred_topk example_bert_payload ! 0) = min 5 5 \<and>
   sorted_wrt (\<ge>) (map snd (pred_topk example_bert_payload ! 0)) \<and>
   length (pred_topk example_bert_payload ! 1) = min 5 5 \<and>
   sorted_wrt (\<ge>) (map snd (pred_topk example_bert_payload ! 1))"
proof -
  have h1: "argsort_ok (np_argsort example_lm) \<and>
    (LM_check_probabilities example_lm [97, 98, 99] 2 = Inr example_lm_payload \<or>
     LM_mega_check_probabilities example_lm [97, 98, 99] 2 = Inr example_lm_payload) \<and>
    enc_encode example_lm (lm_preprocess example_lm [97, 98, 99]) = [0, 1, 2] \<and>
    lm_model example_lm [0, 1, 2] =
      Inr [[ln 7, ln 2, ln 1], [ln 7, ln 2, ln 1], [ln 7, ln 2, ln 1]]"
    using example_lm_ok example_lm_abc_payload example_lm_context example_lm_logits by blast
  note t1 = topk_sorted_and_length [THEN conjunct1, THEN mp, OF h1]
  have pl: "pred_topk example_lm_payload =
     [[([97], 7 / 10), ([98], 1 / 5)], [([97], 7 / 10), ([98], 1 / 5)]]"
    by (simp add: example_lm_payload_def)
  have a0: "length (pred_topk example_lm_payload) = 3 - 1"
    using t1 [THEN conjunct1] by simp
  have a1: "length (pred_topk example_lm_payload ! 0) = min 2 3 \<and>
     sorted_wrt (\<ge>) (map snd (pred_topk example_lm_payload ! 0))"
    using t1 [THEN conjunct2, rule_format, of 0] by simp
  have a2: "length (pred_topk example_lm_payload ! 1) = min 2 3 \<and>
     sorted_wrt (\<ge>) (map snd (pred_topk example_lm_payload ! 1))"
    using t1 [THEN conjunct2, rule_format, of 1] by simp
  have h2: "argsort_ok (np_argsort example_lm) \<and>
    (LM_check_probabilities example_lm [99, 97] 5 =
       Inr \<lparr>bpe_strings = [[99], [97]],
            real_topk = [(0, 7 / 10)],
            pred_topk = [[([97], 7 / 10), ([98], 1 / 5), ([99], 1 / 10)]]\<rparr> \<or>
     LM_mega_check_probabilities example_lm [99, 97] 5 =
       Inr \<lparr>bpe_strings = [[99], [97]],
            real_topk = [(0, 7 / 10)],
            pred_topk = [[([97], 7 / 10), ([98], 1 / 5), ([99], 1 / 10)]]\<rparr>) \<and>
    enc_encode example_lm (lm_preprocess example_lm [99, 97]) = [2, 0] \<and>
    lm_model example_lm [2, 0] = Inr [[ln 7, ln 2, ln 1], [ln 7, ln 2, ln 1]]"
    using example_lm_ok example_lm_mega_ca example_lm_context_ca example_lm_logits_ca by blast
  note t2 = topk_sorted_and_length [THEN conjunct1, THEN mp, OF h2]
  have b0: "length [[([97], 7 / 10), ([98], 1 / 5), ([99 :: nat], 1 / 10 :: real)]] = 2 - 1"
    by simp
  have b1: "length [([97], 7 / 10), ([98], 1 / 5), ([99 :: nat], 1 / 10 :: real)] = min 5 3 \<and>
     sorted_wrt (\<ge>) (map snd [([97], 7 / 10), ([98], 1 / 5), ([99 :: nat], 1 / 10 :: real)])"
    using t2 [THEN conjunct2, rule_format, of 0] by simp
  have fw: "bert_model example_bert [[0, 0, 0, 0, 0, 0, 0, 0, 0, 0, 0, 0, 0, 0, 0, 0, 0, 0, 0, 0, 1, 0, 0, 0, 0, 0, 0, 0, 0, 0, 0, 0, 0, 0, 0, 0, 0, 0, 0, 0, 0]] =
     Inr (map (map (\<lambda>t. [ln 1, ln 2, ln 3, ln 4, ln 5])) [[0, 0, 0, 0, 0, 0, 0, 0, 0, 0, 0, 0, 0, 0, 0, 0, 0, 0, 0, 0, 1, 0, 0, 0, 0, 0, 0, 0, 0, 0, 0, 0, 0, 0, 0, 0, 0, 0, 0, 0, 0]])"
    by (simp add: example_bert_def)
  have h3: "argsort_ok (np_argsort example_bert) \<and>
    rank_batch example_bert 5 20 ([[0, 0, 0, 0, 0, 0, 0, 0, 0, 0, 0, 0, 0, 0, 0, 0, 0, 0, 0, 0, 1, 0, 0, 0, 0, 0, 0, 0, 0, 0, 0, 0, 0, 0, 0, 0, 0, 0, 0, 0, 0]], [2]) = Inr ([(2, 1 / 5)], [[([119], 1 / 3), ([91, 77, 65, 83, 75, 93], 4 / 15),
            ([91, 83, 69, 80, 93], 1 / 5), ([91, 67, 76, 83, 93], 2 / 15),
            ([91, 80, 65, 68, 93], 1 / 15)]]) \<and>
    bert_model example_bert [[0, 0, 0, 0, 0, 0, 0, 0, 0, 0, 0, 0, 0, 0, 0, 0, 0, 0, 0, 0, 1, 0, 0, 0, 0, 0, 0, 0, 0, 0, 0, 0, 0, 0, 0, 0, 0, 0, 0, 0, 0]] =
     Inr (map (map (\<lambda>t. [ln 1, ln 2, ln 3, ln 4, ln 5])) [[0, 0, 0, 0, 0, 0, 0, 0, 0, 0, 0, 0, 0, 0, 0, 0, 0, 0, 0, 0, 1, 0, 0, 0, 0, 0, 0, 0, 0, 0, 0, 0, 0, 0, 0, 0, 0, 0, 0, 0, 0]])"
    using example_bert_ok example_rank_empty fw by blast
  note t3 = topk_sorted_and_length [THEN conjunct2, THEN conjunct1, THEN mp, OF h3]
  have c1: "length ([([119], 1 / 3), ([91, 77, 65, 83, 75, 93], 4 / 15),
            ([91, 83, 69, 80, 93], 1 / 5), ([91, 67, 76, 83, 93], 2 / 15),
            ([91, 80, 65, 68, 93], 1 / 15)] :: (ustring \<times> real) list) = min 5 5 \<and>
     sorted_wrt (\<ge>) (map snd ([([119], 1 / 3), ([91, 77, 65, 83, 75, 93], 4 / 15),
            ([91, 83, 69, 80, 93], 1 / 5), ([91, 67, 76, 83, 93], 2 / 15),
            ([91, 80, 65, 68, 93], 1 / 15)] :: (ustring \<times> real) list))"
    using t3 [THEN conjunct2, rule_format, of 0] by simp
  have h4: "argsort_ok (np_argsort example_bert) \<and>
    BERTLM_check_probabilities example_bert [119] 5 20 20 = Inr example_bert_payload \<and>
    tokenizer_tokenize example_bert
      ([91, 67, 76, 83, 93, 32] @ bert_preprocess example_bert [119] @ [32, 91, 83, 69, 80, 93])
      = [[91, 67, 76, 83, 93], [119], [91, 83, 69, 80, 93]] \<and>
    build_batches (map (token_to_id example_bert) [[91, 67, 76, 83, 93], [119], [91, 83, 69, 80, 93]])
      (self_mask_tok example_bert) (self_pad example_bert) 20 20 = Inr [([[0, 0, 0, 0, 0, 0, 0, 0, 0, 0, 0, 0, 0, 0, 0, 0, 0, 0, 0, 0, 1, 3, 0, 0, 0, 0, 0, 0, 0, 0, 0, 0, 0, 0, 0, 0, 0, 0, 0, 0, 0], [0, 0, 0, 0, 0, 0, 0, 0, 0, 0, 0, 0, 0, 0, 0, 0, 0, 0, 0, 1, 4, 0, 0, 0, 0, 0, 0, 0, 0, 0, 0, 0, 0, 0, 0, 0, 0, 0, 0, 0, 0]], [4, 2])] \<and>
    list_all2 (\<lambda>b out. bert_model example_bert (fst b) = Inr out \<and> length out = length (fst b))
      [([[0, 0, 0, 0, 0, 0, 0, 0, 0, 0, 0, 0, 0, 0, 0, 0, 0, 0, 0, 0, 1, 3, 0, 0, 0, 0, 0, 0, 0, 0, 0, 0, 0, 0, 0, 0, 0, 0, 0, 0, 0], [0, 0, 0, 0, 0, 0, 0, 0, 0, 0, 0, 0, 0, 0, 0, 0, 0, 0, 0, 1, 4, 0, 0, 0, 0, 0, 0, 0, 0, 0, 0, 0, 0, 0, 0, 0, 0, 0, 0, 0, 0]], [4, 2])]
      [map (map (\<lambda>t. [ln 1, ln 2, ln 3, ln 4, ln 5])) [[0, 0, 0, 0, 0, 0, 0, 0, 0, 0, 0, 0, 0, 0, 0, 0, 0, 0, 0, 0, 1, 3, 0, 0, 0, 0, 0, 0, 0, 0, 0, 0, 0, 0, 0, 0, 0, 0, 0, 0, 0], [0, 0, 0, 0, 0, 0, 0, 0, 0, 0, 0, 0, 0, 0, 0, 0, 0, 0, 0, 1, 4, 0, 0, 0, 0, 0, 0, 0, 0, 0, 0, 0, 0, 0, 0, 0, 0, 0, 0, 0, 0]]]"
    using example_bert_ok example_bert_word_payload example_tokens_word example_bert_outs
    unfolding example_ids example_batches_word by blast
  note t4 = topk_sorted_and_length [THEN conjunct2, THEN conjunct2, THEN mp, OF h4]
  have d0: "length (pred_topk example_bert_payload) = 3 - 1"
    using t4 [THEN conjunct1] by simp
  have d1: "length (pred_topk example_bert_payload ! 0) = min 5 5 \<and>
     sorted_wrt (\<ge>) (map snd (pred_topk example_bert_payload ! 0))"
    using t4 [THEN conjunct2, rule_format, of 0] by simp
  have d2: "length (pred_topk example_bert_payload ! 1) = min 5 5 \<and>
     sorted_wrt (\<ge>) (map snd (pred_topk example_bert_payload ! 1))"
    using t4 [THEN conjunct2, rule_format, of 1] by simp
  show ?thesis
    using example_lm_ok example_lm_abc_payload example_lm_context example_lm_logits pl a0
      a1 [THEN conjunct1] a1 [THEN conjunct2] a2 [THEN conjunct1] a2 [THEN conjunct2]
      example_lm_mega_ca example_lm_context_ca example_lm_logits_ca b0
      b1 [THEN conjunct1] b1 [THEN conjunct2]
      example_bert_ok example_rank_empty fw c1 [THEN conjunct1] c1 [THEN conjunct2]
      example_bert_word_payload example_tokens_word d0
      d1 [THEN conjunct1] d1 [THEN conjunct2] d2 [THEN conjunct1] d2 [THEN conjunct2]
    by (intro conjI)
qed


section \<open>Rounding of the probabilities\<close>

text \<open>
  Claim C5. The causal classes round every probability to five decimals (lines 111
  and 122), and the probabilities lie in \<open>[0, 1]\<close>. \<open>BERTLM.check_probabilities\<close>
  never calls \<open>round\<close>: on the tokens \<open>[CLS]\<close>, \<open>w\<close>, \<open>[SEP]\<close>, with a forward pass
  whose softmax is \<open>(1/15, 2/15, 1/5, 4/15, 1/3)\<close>, the payload carries \<open>1/3\<close>,
  \<open>4/15\<close>, \<open>2/15\<close> and \<open>1/15\<close> as they are; \<open>1/3\<close> is no multiple of \<open>10^-5\<close>, and
  rounded to five decimals it is \<open>0.33333\<close>.
\<close>

theorem masked_probabilities_unrounded:
  "BERTLM_check_probabilities example_bert [119] 5 20 20 =
     Inr \<lparr>bpe_strings = [[288, 91, 67, 76, 83, 93], [288, 119], [266, 288, 91, 83, 69, 80, 93]],
          real_topk = [(0, 1 / 3), (2, 1 / 5)],
          pred_topk = [[([288, 119], 1 / 3), ([288, 91, 77, 65, 83, 75, 93], 4 / 15),
            ([266, 288, 91, 83, 69, 80, 93], 1 / 5), ([288, 91, 67, 76, 83, 93], 2 / 15),
            ([288, 91, 80, 65, 68, 93], 1 / 15)], [([288, 119], 1 / 3), ([288, 91, 77, 65, 83, 75, 93], 4 / 15),
            ([266, 288, 91, 83, 69, 80, 93], 1 / 5), ([288, 91, 67, 76, 83, 93], 2 / 15),
            ([288, 91, 80, 65, 68, 93], 1 / 15)]]\<rparr> \<and>
   round5 (1 / 3) = 33333 / 100000 \<and>
   (1 / 3 :: real) * 100000 \<notin> \<int>"
proof -
  have "(1 / 3 :: real) * 100000 \<notin> \<int>"
  proof
    assume "(1 / 3 :: real) * 100000 \<in> \<int>"
    then obtain k :: int where k: "(1 / 3 :: real) * 100000 = of_int k" by (auto elim: Ints_cases)
    then have "(100000 :: real) = of_int (3 * k)" by simp
    then have "(100000 :: int) = 3 * k" by (metis of_int_eq_iff of_int_numeral)
    then show False by presburger
  qed
  then show ?thesis using example_bert_word example_round5_third by simp
qed


end
